theory Spec2Isabelle
  imports Complex_Main "HOL-Library.Multiset" "HOL-Library.Word"
begin

unbundle bit_operations_syntax

section \<open>Grid model (levelTypes.ts, directions.ts)\<close>

text \<open>
  \<open>TileType\<close> is the closed tile vocabulary of levelTypes.ts. A grid position
  \<open>{x, y}\<close> is a pair of integers \<open>(x, y)\<close>; \<open>y\<close> is the row index.
\<close>

datatype TileType = Wall | Pellet | Power | PlayerStart | GhostStart | Empty

type_synonym GridPos = "int \<times> int"

text \<open>
  The interface \<open>ParsedLevel\<close>. JavaScript numbers that hold sizes, counts and coordinates
  are integers here.
\<close>

record ParsedLevel =
  ident :: "string option"
  width :: int
  height :: int
  rawGrid :: "string list"
  tileMatrix :: "TileType list list"
  startPos :: "GridPos option"
  playerStartCount :: int
  playerStarts :: "GridPos list"
  ghostStarts :: "GridPos list"
  pelletCount :: int
  powerCount :: int
  pelletPositions :: "GridPos list"
  bombPickupPositions :: "GridPos list"
  boxPositions :: "GridPos list"
  fruitSpawnPositions :: "GridPos list"

text \<open>
  The shape invariant of a parsed level: \<open>height\<close> rows, each of \<open>width\<close> tiles.
  Every read \<open>level.tileMatrix[y]![x]!\<close> of the source is in range on such a level
  whenever \<open>(x, y)\<close> passed the source's bounds test.
\<close>

definition wf_level :: "ParsedLevel \<Rightarrow> bool" where
  "wf_level L \<longleftrightarrow>
     0 \<le> width L \<and> 0 \<le> height L \<and>
     length (tileMatrix L) = nat (height L) \<and>
     list_all (\<lambda>row. length row = nat (width L)) (tileMatrix L)"

definition inBounds :: "ParsedLevel \<Rightarrow> int \<Rightarrow> int \<Rightarrow> bool" where
  "inBounds L tx ty \<longleftrightarrow> tx \<ge> 0 \<and> ty \<ge> 0 \<and> tx < width L \<and> ty < height L"

definition tileAt :: "ParsedLevel \<Rightarrow> int \<Rightarrow> int \<Rightarrow> TileType" where
  "tileAt L tx ty = tileMatrix L ! nat ty ! nat tx"

definition isWalkable :: "TileType \<Rightarrow> bool" where
  "isWalkable tile \<longleftrightarrow> tile \<noteq> Wall"

datatype Direction = DirNone | DirUp | DirDown | DirLeft | DirRight

fun vec :: "Direction \<Rightarrow> int \<times> int" where
  "vec DirUp = (0, -1)"
| "vec DirDown = (0, 1)"
| "vec DirLeft = (-1, 0)"
| "vec DirRight = (1, 0)"
| "vec DirNone = (0, 0)"

section \<open>Wrap tunnels (wrapTunnels.ts)\<close>

definition getWrapDestination :: "ParsedLevel \<Rightarrow> int \<Rightarrow> int \<Rightarrow> Direction \<Rightarrow> GridPos option" where
  "getWrapDestination L tileX tileY dir =
     (if dir = DirNone then None
      else
        let nx = tileX + fst (vec dir);
            ny = tileY + snd (vec dir)
        in
        if nx \<ge> 0 \<and> ny \<ge> 0 \<and> nx < width L \<and> ny < height L then None
        else if dir = DirLeft \<and> tileX = 0 then
          (let destX = width L - 1 in
           if \<not> isWalkable (tileAt L tileX tileY) then None
           else if \<not> isWalkable (tileAt L destX tileY) then None
           else Some (destX, tileY))
        else if dir = DirRight \<and> tileX = width L - 1 then
          (let destX = 0 in
           if \<not> isWalkable (tileAt L tileX tileY) then None
           else if \<not> isWalkable (tileAt L destX tileY) then None
           else Some (destX, tileY))
        else if dir = DirUp \<and> tileY = 0 then
          (let destY = height L - 1 in
           if \<not> isWalkable (tileAt L tileX tileY) then None
           else if \<not> isWalkable (tileAt L tileX destY) then None
           else Some (tileX, destY))
        else if dir = DirDown \<and> tileY = height L - 1 then
          (let destY = 0 in
           if \<not> isWalkable (tileAt L tileX tileY) then None
           else if \<not> isWalkable (tileAt L tileX destY) then None
           else Some (tileX, destY))
        else None)"

definition nextTileWithWrap :: "ParsedLevel \<Rightarrow> int \<Rightarrow> int \<Rightarrow> Direction \<Rightarrow> GridPos option" where
  "nextTileWithWrap L tileX tileY dir =
     (if dir = DirNone then None
      else
        let nx = tileX + fst (vec dir);
            ny = tileY + snd (vec dir)
        in
        if nx \<ge> 0 \<and> ny \<ge> 0 \<and> nx < width L \<and> ny < height L then
          (if \<not> isWalkable (tileAt L nx ny) then None else Some (nx, ny))
        else
          (case getWrapDestination L tileX tileY dir of
             None \<Rightarrow> None
           | Some wrap \<Rightarrow> Some wrap))"

text \<open>
  The tile on the opposite edge of the same row (for a horizontal move) or column (for a
  vertical move): the only place a move that leaves the grid may land.
\<close>

fun mirrorTile :: "ParsedLevel \<Rightarrow> int \<Rightarrow> int \<Rightarrow> Direction \<Rightarrow> GridPos" where
  "mirrorTile L tx ty DirLeft = (width L - 1, ty)"
| "mirrorTile L tx ty DirRight = (0, ty)"
| "mirrorTile L tx ty DirUp = (tx, height L - 1)"
| "mirrorTile L tx ty DirDown = (tx, 0)"
| "mirrorTile L tx ty DirNone = (tx, ty)"

definition testLevel :: "int \<Rightarrow> int \<Rightarrow> TileType list list \<Rightarrow> ParsedLevel" where
  "testLevel w h m =
     \<lparr> ident = None, width = w, height = h, rawGrid = [], tileMatrix = m,
       startPos = None, playerStartCount = 0, playerStarts = [], ghostStarts = [],
       pelletCount = 0, powerCount = 0, pelletPositions = [],
       bombPickupPositions = [], boxPositions = [], fruitSpawnPositions = [] \<rparr>"

section \<open>Seeded PRNG (rng.ts)\<close>

text \<open>
  A JavaScript string is read through \<open>charCodeAt\<close>, that is as a list of UTF-16 code
  units; \<open>codeUnits\<close> gives them for a string of one-byte characters.
\<close>

definition codeUnits :: "string \<Rightarrow> nat list" where
  "codeUnits s = map of_char s"

text \<open>
  \<open>stringToSeed32\<close> (xmur3). \<open>Math.imul\<close> is multiplication of 32-bit words,
  \<open>(h << 13) | (h >>> 19)\<close> a rotation.
\<close>

definition xmur3Step :: "32 word \<Rightarrow> nat \<Rightarrow> 32 word" where
  "xmur3Step h c =
     (let h1 = (h XOR word_of_nat c) * 3432918353
      in (push_bit 13 h1) OR (drop_bit 19 h1))"

definition stringToSeed32 :: "nat list \<Rightarrow> 32 word" where
  "stringToSeed32 str =
     (let h0 = (1779033703 :: 32 word) XOR word_of_nat (length str);
          h1 = foldl xmur3Step h0 str;
          h2 = (h1 XOR drop_bit 16 h1) * 2246822507;
          h3 = (h2 XOR drop_bit 13 h2) * 3266489909
      in h3 XOR drop_bit 16 h3)"

text \<open>
  \<open>mulberry32\<close>: the closure's variable \<open>a\<close> is the state. One call returns the
  numerator \<open>t\<close> of the float \<open>t / 4294967296\<close> and the new state.
\<close>

definition mulberry32 :: "32 word \<Rightarrow> 32 word \<times> 32 word" where
  "mulberry32 a0 =
     (let a = a0 + 0x6d2b79f5;
          t1 = (a XOR drop_bit 15 a) * (a OR 1);
          t2 = t1 XOR (t1 + (t1 XOR drop_bit 7 t1) * (t1 OR 61))
      in (t2 XOR drop_bit 14 t2, a))"

text \<open>
  \<open>createRng(seedString).nextInt\<close> on integer arguments. The float product
  \<open>next() * (max - min)\<close> is \<open>t * (max - min) / 2 ^ 32\<close>; it is computed without
  rounding while \<open>max - min\<close> is at most \<open>2 ^ 21\<close>, which covers every candidate list of a
  playable grid. When \<open>max \<le> min\<close> no number is drawn.
\<close>

definition createRng :: "nat list \<Rightarrow> 32 word" where
  "createRng seedString = stringToSeed32 seedString"

definition nextInt :: "32 word \<Rightarrow> int \<Rightarrow> int \<Rightarrow> int \<times> 32 word" where
  "nextInt a minInclusive maxExclusive =
     (if maxExclusive \<le> minInclusive then (minInclusive, a)
      else
        let (t, a') = mulberry32 a
        in (minInclusive + (uint t * (maxExclusive - minInclusive)) div 4294967296, a'))"

section \<open>Live maze mutation (vibeReorgShift.ts)\<close>

record ReorgShiftConfig =
  mutations :: int
  maxTriesPerMutation :: int
  softlockMaxSteps :: int

definition isMutableWalkable :: "TileType \<Rightarrow> bool" where
  "isMutableWalkable tile \<longleftrightarrow> isWalkable tile \<and> tile \<noteq> PlayerStart \<and> tile \<noteq> GhostStart"

text \<open>\<open>Boolean(pmask[y]?.[x])\<close>: a position outside the mask is not protected.\<close>

definition hasProtected :: "bool list list \<Rightarrow> int \<Rightarrow> int \<Rightarrow> bool" where
  "hasProtected pmask px py \<longleftrightarrow>
     0 \<le> py \<and> nat py < length pmask \<and> 0 \<le> px \<and> nat px < length (pmask ! nat py) \<and>
     pmask ! nat py ! nat px"

text \<open>
  The sets of tile keys \<open>"x,y"\<close> are lists of positions, in insertion order and without
  duplicates; a \<open>SwapCandidate\<close> is the pair of its two positions.
\<close>

definition addKey :: "GridPos \<Rightarrow> GridPos list \<Rightarrow> GridPos list" where
  "addKey k ks = (if k \<in> set ks then ks else ks @ [k])"

definition candidateTowards ::
  "ParsedLevel \<Rightarrow> bool list list \<Rightarrow> GridPos list \<Rightarrow> int \<Rightarrow> int \<Rightarrow> int \<times> int \<Rightarrow> (GridPos \<times> GridPos) list" where
  "candidateTowards L pmask used cx cy d =
     (let nx = cx + fst d; ny = cy + snd d in
      if nx < 0 \<or> ny < 0 \<or> nx \<ge> width L \<or> ny \<ge> height L then []
      else if (nx, ny) \<in> set used then []
      else if hasProtected pmask nx ny then []
      else
        let a = tileAt L cx cy;
            b = tileAt L nx ny;
            aWall = (a = Wall);
            bWall = (b = Wall)
        in
        if aWall = bWall then []
        else
          let aWalk = isMutableWalkable a;
              bWalk = isMutableWalkable b
          in if \<not> aWalk \<and> \<not> bWalk then [] else [((cx, cy), (nx, ny))])"

definition candidatesAt ::
  "ParsedLevel \<Rightarrow> bool list list \<Rightarrow> GridPos list \<Rightarrow> int \<Rightarrow> int \<Rightarrow> (GridPos \<times> GridPos) list" where
  "candidatesAt L pmask used cx cy =
     (if (cx, cy) \<in> set used then []
      else if hasProtected pmask cx cy then []
      else concat (map (candidateTowards L pmask used cx cy) [(1, 0), (0, 1)]))"

definition collectAdjacentSwapCandidates ::
  "ParsedLevel \<Rightarrow> bool list list \<Rightarrow> GridPos list \<Rightarrow> (GridPos \<times> GridPos) list" where
  "collectAdjacentSwapCandidates L pmask used =
     concat (map (\<lambda>cy. concat (map (\<lambda>cx. candidatesAt L pmask used cx cy) [0..width L - 1]))
                 [0..height L - 1])"

definition setTile :: "ParsedLevel \<Rightarrow> GridPos \<Rightarrow> TileType \<Rightarrow> ParsedLevel" where
  "setTile L p t =
     L\<lparr>tileMatrix := (tileMatrix L)[nat (snd p) := (tileMatrix L ! nat (snd p))[nat (fst p) := t]]\<rparr>"

definition swapTiles :: "ParsedLevel \<Rightarrow> GridPos \<Rightarrow> GridPos \<Rightarrow> ParsedLevel" where
  "swapTiles L a b =
     (let tA = tileAt L (fst a) (snd a);
          tB = tileAt L (fst b) (snd b)
      in setTile (setTile L a tB) b tA)"

subsection \<open>Breadth-first search with wrap-around\<close>

definition newVisited :: "ParsedLevel \<Rightarrow> bool list list" where
  "newVisited L = replicate (nat (height L)) (replicate (nat (width L)) False)"

definition inMatrix :: "bool list list \<Rightarrow> GridPos \<Rightarrow> bool" where
  "inMatrix v p \<longleftrightarrow>
     0 \<le> snd p \<and> nat (snd p) < length v \<and> 0 \<le> fst p \<and> nat (fst p) < length (v ! nat (snd p))"

definition visitedAt :: "bool list list \<Rightarrow> GridPos \<Rightarrow> bool" where
  "visitedAt v p \<longleftrightarrow> inMatrix v p \<and> v ! nat (snd p) ! nat (fst p)"

definition markVisited :: "bool list list \<Rightarrow> GridPos \<Rightarrow> bool list list" where
  "markVisited v p = v[nat (snd p) := (v ! nat (snd p))[nat (fst p) := True]]"

definition bfsDirs :: "Direction list" where
  "bfsDirs = [DirRight, DirLeft, DirDown, DirUp]"

text \<open>
  The body \<open>for (const d of dirs) { ... }\<close> shared by the three searches: every legal
  neighbour that is not yet visited is marked and appended to the queue; \<open>mk\<close> builds the
  queue entry. \<open>nextTileWithWrap\<close> returns tiles of the grid only
  (\<open>nextTileWithWrap_inBounds\<close>), so the test \<open>inMatrix\<close> never fails on a well-formed
  level; it stands for the TypeError of a read outside the matrix.
\<close>

fun visitNeighbours ::
  "ParsedLevel \<Rightarrow> GridPos \<Rightarrow> (GridPos \<Rightarrow> 'q) \<Rightarrow> Direction list \<Rightarrow>
   bool list list \<times> 'q list \<Rightarrow> bool list list \<times> 'q list" where
  "visitNeighbours L cur mk [] st = st"
| "visitNeighbours L cur mk (d # ds) st =
     (case nextTileWithWrap L (fst cur) (snd cur) d of
        None \<Rightarrow> visitNeighbours L cur mk ds st
      | Some nxt \<Rightarrow>
          if \<not> inMatrix (fst st) nxt \<or> visitedAt (fst st) nxt
          then visitNeighbours L cur mk ds st
          else visitNeighbours L cur mk ds (markVisited (fst st) nxt, snd st @ [mk nxt]))"

definition unvisited :: "bool list list \<Rightarrow> nat" where
  "unvisited v = sum_list (map (\<lambda>row. length (filter Not row)) v)"

lemma filter_Not_update:
  "i < length r \<Longrightarrow> \<not> r ! i \<Longrightarrow> Suc (length (filter Not (r[i := True]))) = length (filter Not r)"
proof (induction r arbitrary: i)
  case Nil
  then show ?case by simp
next
  case (Cons b r)
  then show ?case by (cases i) auto
qed

lemma unvisited_markVisited:
  assumes "inMatrix v p" and "\<not> visitedAt v p"
  shows "Suc (unvisited (markVisited v p)) = unvisited v"
proof -
  define yy where "yy = nat (snd p)"
  define xx where "xx = nat (fst p)"
  define f where "f = (\<lambda>row :: bool list. length (filter Not row))"
  from assms have y: "yy < length v" and x: "xx < length (v ! yy)" and nv: "\<not> v ! yy ! xx"
    by (auto simp: inMatrix_def visitedAt_def yy_def xx_def)
  have step: "Suc (f ((v ! yy)[xx := True])) = f (v ! yy)"
    unfolding f_def by (rule filter_Not_update[OF x nv])
  have mem: "f (v ! yy) \<in> set (map f v)"
    using y by (metis length_map nth_map nth_mem)
  have le: "f (v ! yy) \<le> sum_list (map f v)"
    using mem by (simp add: member_le_sum_list)
  have upd: "map f (v[yy := (v ! yy)[xx := True]]) = (map f v)[yy := f ((v ! yy)[xx := True])]"
    by (rule map_update)
  have "sum_list ((map f v)[yy := f ((v ! yy)[xx := True])])
          = sum_list (map f v) + f ((v ! yy)[xx := True]) - (map f v) ! yy"
    by (rule sum_list_update) (simp add: y)
  also have "(map f v) ! yy = f (v ! yy)"
    using y by simp
  finally have "sum_list (map f (v[yy := (v ! yy)[xx := True]]))
          = sum_list (map f v) + f ((v ! yy)[xx := True]) - f (v ! yy)"
    using upd by simp
  then have "Suc (sum_list (map f (v[yy := (v ! yy)[xx := True]]))) = sum_list (map f v)"
    using step le by linarith
  then show ?thesis
    unfolding unvisited_def markVisited_def f_def yy_def xx_def .
qed

lemma visitNeighbours_measure:
  "unvisited (fst (visitNeighbours L cur mk ds st)) + length (snd (visitNeighbours L cur mk ds st))
     = unvisited (fst st) + length (snd st)"
proof (induction ds arbitrary: st)
  case Nil
  then show ?case by simp
next
  case (Cons d ds)
  show ?case
  proof (cases "nextTileWithWrap L (fst cur) (snd cur) d")
    case None
    then show ?thesis using Cons.IH by simp
  next
    case (Some nxt)
    show ?thesis
    proof (cases "\<not> inMatrix (fst st) nxt \<or> visitedAt (fst st) nxt")
      case True
      then show ?thesis using Some Cons.IH by simp
    next
      case False
      then have "Suc (unvisited (markVisited (fst st) nxt)) = unvisited (fst st)"
        using unvisited_markVisited by blast
      then show ?thesis
        using Some False Cons.IH[of "(markVisited (fst st) nxt, snd st @ [mk nxt])"] by simp
    qed
  qed
qed

function floodFill :: "ParsedLevel \<Rightarrow> bool list list \<Rightarrow> GridPos list \<Rightarrow> bool list list" where
  "floodFill L v [] = v"
| "floodFill L v (cur # rest) =
     floodFill L (fst (visitNeighbours L cur id bfsDirs (v, rest)))
                 (snd (visitNeighbours L cur id bfsDirs (v, rest)))"
  by pat_completeness auto
termination
proof (relation "measure (\<lambda>(L, v, q). unvisited v + length q)")
  show "wf (measure (\<lambda>(L, v, q). unvisited v + length q))" by simp
next
  fix L :: ParsedLevel and v :: "bool list list" and cur :: GridPos and rest :: "GridPos list"
  show "((L, fst (visitNeighbours L cur id bfsDirs (v, rest)),
             snd (visitNeighbours L cur id bfsDirs (v, rest))), (L, v, cur # rest))
          \<in> measure (\<lambda>(L, v, q). unvisited v + length q)"
    using visitNeighbours_measure[of L cur id bfsDirs "(v, rest)"] by (simp add: case_prod_beta)
qed

definition reachableFromStart :: "ParsedLevel \<Rightarrow> GridPos \<Rightarrow> bool list list" where
  "reachableFromStart L start =
     (let visited = newVisited L in
      if fst start < 0 \<or> snd start < 0 \<or> fst start \<ge> width L \<or> snd start \<ge> height L \<or>
         \<not> isWalkable (tileAt L (fst start) (snd start))
      then visited
      else floodFill L (markVisited visited start) [start])"

definition neighborCount :: "ParsedLevel \<Rightarrow> int \<Rightarrow> int \<Rightarrow> int" where
  "neighborCount L tx ty =
     int (length (filter (\<lambda>d. nextTileWithWrap L tx ty d \<noteq> None)
                         [DirUp, DirDown, DirLeft, DirRight]))"

function branchSearch ::
  "ParsedLevel \<Rightarrow> int \<Rightarrow> bool list list \<Rightarrow> (GridPos \<times> int) list \<Rightarrow> bool" where
  "branchSearch L maxSteps v [] = False"
| "branchSearch L maxSteps v ((cur, steps) # rest) =
     (if steps > 0 \<and> neighborCount L (fst cur) (snd cur) \<ge> 3 then True
      else if steps \<ge> maxSteps then branchSearch L maxSteps v rest
      else branchSearch L maxSteps
             (fst (visitNeighbours L cur (\<lambda>p. (p, steps + 1)) bfsDirs (v, rest)))
             (snd (visitNeighbours L cur (\<lambda>p. (p, steps + 1)) bfsDirs (v, rest))))"
  by pat_completeness auto
termination
proof (relation "measure (\<lambda>(L, m, v, q). unvisited v + length q)")
  show "wf (measure (\<lambda>(L, m, v, q). unvisited v + length q))" by simp
next
  fix L :: ParsedLevel and maxSteps :: int and v :: "bool list list"
    and cur :: GridPos and steps :: int and rest :: "(GridPos \<times> int) list"
  show "((L, maxSteps, v, rest), (L, maxSteps, v, (cur, steps) # rest))
          \<in> measure (\<lambda>(L, m, v, q). unvisited v + length q)"
    by simp
next
  fix L :: ParsedLevel and maxSteps :: int and v :: "bool list list"
    and cur :: GridPos and steps :: int and rest :: "(GridPos \<times> int) list"
  show "((L, maxSteps, fst (visitNeighbours L cur (\<lambda>p. (p, steps + 1)) bfsDirs (v, rest)),
             snd (visitNeighbours L cur (\<lambda>p. (p, steps + 1)) bfsDirs (v, rest))),
         (L, maxSteps, v, (cur, steps) # rest))
          \<in> measure (\<lambda>(L, m, v, q). unvisited v + length q)"
    using visitNeighbours_measure[of L cur "\<lambda>p. (p, steps + 1)" bfsDirs "(v, rest)"]
    by (simp add: case_prod_beta)
qed

definition hasNearbyBranch :: "ParsedLevel \<Rightarrow> GridPos \<Rightarrow> int \<Rightarrow> bool" where
  "hasNearbyBranch L start maxSteps =
     branchSearch L maxSteps (markVisited (newVisited L) start) [(start, 0)]"

subsection \<open>Fairness checks and the shift itself\<close>

definition outOfGrid :: "ParsedLevel \<Rightarrow> GridPos \<Rightarrow> bool" where
  "outOfGrid L p \<longleftrightarrow> fst p < 0 \<or> snd p < 0 \<or> fst p \<ge> width L \<or> snd p \<ge> height L"

text \<open>
  \<open>passesChecks\<close>: each loop of the source returns false at its first failing element,
  which is \<open>list_all\<close> over the elements in the loop's order.
\<close>

definition passesChecks :: "ParsedLevel \<Rightarrow> GridPos list \<Rightarrow> GridPos list \<Rightarrow> int \<Rightarrow> bool" where
  "passesChecks L starts critical maxSteps =
     (if starts = [] then False
      else
        let visited = reachableFromStart L (hd starts) in
        if \<not> list_all (\<lambda>cy. list_all (\<lambda>cx.
                 let t = tileAt L cx cy in
                 if t \<noteq> Pellet \<and> t \<noteq> Power then True else visitedAt visited (cx, cy))
               [0..width L - 1]) [0..height L - 1]
        then False
        else if \<not> list_all (\<lambda>s.
                 \<not> outOfGrid L s \<and> isWalkable (tileAt L (fst s) (snd s)) \<and> visitedAt visited s)
               starts
        then False
        else if \<not> list_all (\<lambda>pos.
                 outOfGrid L pos \<or> (isWalkable (tileAt L (fst pos) (snd pos)) \<and> visitedAt visited pos))
               critical
        then False
        else if \<not> list_all (\<lambda>s.
                 outOfGrid L s \<or>
                 (isWalkable (tileAt L (fst s) (snd s)) \<and>
                  (let deg = neighborCount L (fst s) (snd s) in
                   deg \<noteq> 0 \<and> (deg \<ge> 2 \<or> hasNearbyBranch L s maxSteps))))
               starts
        then False
        else True)"

text \<open>
  The generator is any object with a method \<open>nextInt\<close>: a state of type \<open>'r\<close> and a
  function from the state and the two bounds to the drawn number and the next state.
  A drawn number that is no index of \<open>candidates\<close> makes \<open>pick\<close> undefined, and reading
  \<open>pick.ax\<close> throws: the outcome \<open>Threw\<close>, with the grid as it is at that moment.
\<close>

datatype 'r AttemptOutcome =
    AttemptThrew ParsedLevel 'r
  | NotApplied ParsedLevel 'r
  | Applied ParsedLevel 'r GridPos GridPos

datatype 'r ShiftOutcome =
    Threw ParsedLevel 'r
  | Returned bool "GridPos list" ParsedLevel 'r

text \<open>
  The inner loop \<open>for (attempt = 0; attempt < cfg.maxTriesPerMutation; attempt++)\<close>; its
  body does not read \<open>attempt\<close>, so the recursion is on the number of attempts left.
\<close>

fun tryMutation ::
  "('r \<Rightarrow> int \<Rightarrow> int \<Rightarrow> int \<times> 'r) \<Rightarrow> nat \<Rightarrow> ParsedLevel \<Rightarrow> 'r \<Rightarrow> bool list list \<Rightarrow>
   GridPos list \<Rightarrow> GridPos list \<Rightarrow> GridPos list \<Rightarrow> int \<Rightarrow> 'r AttemptOutcome" where
  "tryMutation rngNextInt 0 L r pmask used starts critical maxSteps = NotApplied L r"
| "tryMutation rngNextInt (Suc k) L r pmask used starts critical maxSteps =
     (let candidates = collectAdjacentSwapCandidates L pmask used in
      if candidates = [] then NotApplied L r
      else
        let drawn = rngNextInt r 0 (int (length candidates));
            i = fst drawn;
            r' = snd drawn
        in
        if i < 0 \<or> i \<ge> int (length candidates) then AttemptThrew L r'
        else
          let pick = candidates ! nat i;
              a = fst pick;
              b = snd pick;
              tA = tileAt L (fst a) (snd a);
              tB = tileAt L (fst b) (snd b);
              okPair = ((tA = Wall \<and> isMutableWalkable tB) \<or> (tB = Wall \<and> isMutableWalkable tA))
          in
          if \<not> okPair then tryMutation rngNextInt k L r' pmask used starts critical maxSteps
          else
            let L1 = swapTiles L a b in
            if passesChecks L1 starts critical maxSteps then Applied L1 r' a b
            else tryMutation rngNextInt k (swapTiles L1 a b) r' pmask used starts critical maxSteps)"

text \<open>The revert loop \<open>for (j = accepted.length - 1; j >= 0; j--)\<close>.\<close>

definition revertAccepted :: "ParsedLevel \<Rightarrow> (GridPos \<times> GridPos) list \<Rightarrow> ParsedLevel" where
  "revertAccepted L accepted = fold (\<lambda>ab L'. swapTiles L' (fst ab) (snd ab)) (rev accepted) L"

text \<open>
  The outer loop \<open>for (i = 0; i < cfg.mutations; i++)\<close>, on the number of mutations left.
  The final loop over \<open>mutatedKeys\<close> parses every key back to the position it was built
  from, so \<open>mutatedTiles\<close> is the list of keys.
\<close>

fun shiftLoop ::
  "('r \<Rightarrow> int \<Rightarrow> int \<Rightarrow> int \<times> 'r) \<Rightarrow> nat \<Rightarrow> ReorgShiftConfig \<Rightarrow> bool list list \<Rightarrow>
   GridPos list \<Rightarrow> GridPos list \<Rightarrow> ParsedLevel \<Rightarrow> 'r \<Rightarrow> GridPos list \<Rightarrow>
   (GridPos \<times> GridPos) list \<Rightarrow> GridPos list \<Rightarrow> 'r ShiftOutcome" where
  "shiftLoop rngNextInt 0 cfg pmask starts critical L r used accepted mutatedKeys =
     Returned True mutatedKeys L r"
| "shiftLoop rngNextInt (Suc n) cfg pmask starts critical L r used accepted mutatedKeys =
     (case tryMutation rngNextInt (nat (maxTriesPerMutation cfg)) L r pmask used starts critical
             (softlockMaxSteps cfg) of
        AttemptThrew L' r' \<Rightarrow> Threw L' r'
      | Applied L' r' a b \<Rightarrow>
          shiftLoop rngNextInt n cfg pmask starts critical L' r'
            (addKey b (addKey a used)) (accepted @ [(a, b)]) (addKey b (addKey a mutatedKeys))
      | NotApplied L' r' \<Rightarrow> Returned False [] (revertAccepted L' accepted) r')"

definition applyReorgShift ::
  "('r \<Rightarrow> int \<Rightarrow> int \<Rightarrow> int \<times> 'r) \<Rightarrow> ParsedLevel \<Rightarrow> 'r \<Rightarrow> ReorgShiftConfig \<Rightarrow> bool list list \<Rightarrow>
   GridPos list \<Rightarrow> GridPos list \<Rightarrow> 'r ShiftOutcome" where
  "applyReorgShift rngNextInt L r cfg pmask starts critical =
     shiftLoop rngNextInt (nat (mutations cfg)) cfg pmask starts critical L r [] [] []"

section \<open>Properties of a shift, and small levels to run it on\<close>

text \<open>
  \<open>protectedKept pmask L0 L\<close>: every tile of the grid that the mask protects is in \<open>L\<close>
  what it is in \<open>L0\<close>.
\<close>

definition protectedKept :: "bool list list \<Rightarrow> ParsedLevel \<Rightarrow> ParsedLevel \<Rightarrow> bool" where
  "protectedKept pmask L0 L \<longleftrightarrow>
     (\<forall>tx ty. inBounds L0 tx ty \<and> hasProtected pmask tx ty \<longrightarrow> tileAt L tx ty = tileAt L0 tx ty)"

text \<open>
  The fairness invariants in the words of the specification: every pellet or power tile is
  reached by the breadth-first search from the primary start; every start tile is in the
  grid, walkable and reached; every critical tile in the grid is walkable and reached;
  every start tile has at least one neighbour, and one of degree at least three within
  \<open>maxSteps\<close> when it has exactly one.
\<close>

definition fairGrid :: "ParsedLevel \<Rightarrow> GridPos list \<Rightarrow> GridPos list \<Rightarrow> int \<Rightarrow> bool" where
  "fairGrid L starts critical maxSteps \<longleftrightarrow>
     starts \<noteq> [] \<and>
     (\<forall>cx cy. inBounds L cx cy \<and> (tileAt L cx cy = Pellet \<or> tileAt L cx cy = Power) \<longrightarrow>
        visitedAt (reachableFromStart L (hd starts)) (cx, cy)) \<and>
     (\<forall>s \<in> set starts.
        inBounds L (fst s) (snd s) \<and> isWalkable (tileAt L (fst s) (snd s)) \<and>
        visitedAt (reachableFromStart L (hd starts)) s) \<and>
     (\<forall>c \<in> set critical.
        inBounds L (fst c) (snd c) \<longrightarrow>
        isWalkable (tileAt L (fst c) (snd c)) \<and> visitedAt (reachableFromStart L (hd starts)) c) \<and>
     (\<forall>s \<in> set starts.
        neighborCount L (fst s) (snd s) \<ge> 1 \<and>
        (neighborCount L (fst s) (snd s) = 1 \<longrightarrow> hasNearbyBranch L s maxSteps))"

definition ringLevel :: ParsedLevel where
  "ringLevel = testLevel 5 5
     [[Wall, Wall, Wall, Wall, Wall],
      [Wall, Pellet, Pellet, Pellet, Wall],
      [Pellet, Pellet, PlayerStart, Pellet, Pellet],
      [Wall, Pellet, Pellet, Pellet, Wall],
      [Wall, Wall, Wall, Wall, Wall]]"

definition cfgOf :: "int \<Rightarrow> int \<Rightarrow> int \<Rightarrow> ReorgShiftConfig" where
  "cfgOf m t s = \<lparr> mutations = m, maxTriesPerMutation = t, softlockMaxSteps = s \<rparr>"

definition shiftedRing :: ParsedLevel where
  "shiftedRing = testLevel 5 5
     [[Wall, Wall, Wall, Wall, Wall],
      [Wall, Pellet, Pellet, Pellet, Wall],
      [Pellet, Pellet, PlayerStart, Pellet, Pellet],
      [Wall, Pellet, Pellet, Wall, Pellet],
      [Wall, Wall, Wall, Wall, Wall]]"

definition sealedLevel :: ParsedLevel where
  "sealedLevel = testLevel 4 1 [[Empty, Wall, Pellet, Wall]]"

section \<open>The generator's private PRNG (pacRogue.ts, \<open>seededRng\<close>)\<close>








text \<open>
  \<open>Difficulty\<close> of settings.ts, and the seed string that \<open>generatePacRogueLevel\<close> hands to
  \<open>seededRng\<close>: \<open>`${difficulty}|${seed}`.trim().toLowerCase()\<close>, for a seed of one-byte
  characters (white space and upper case as JavaScript defines them below code 256).
\<close>

datatype Difficulty = Easy | Normal | Hard






section \<open>Level parser (levelParser.ts)\<close>

text \<open>
  A level source is \<open>{ id?: string, grid: string[] }\<close>. The rows are strings of one-byte
  characters here. Parse and validation messages are values of \<open>LevelError\<close>, one
  constructor for each message template of the source, with the interpolated positions
  and characters as arguments.
\<close>

record LevelJson =
  levelId :: "string option"
  grid :: "string list"

datatype Axis = Horizontal | Vertical

datatype LevelError =
    GridNotArray
  | RowsEmpty
  | RowLengthMismatch int int int
  | InvalidChar char int int
  | TooSmall int int
  | TunnelMismatch Axis int int char int int char
  | InvalidTunnelTile int int char
  | PlayerStartCount int
  | NoPellet
  | NoGhostStart
  | PelletNotReachable int int

definition isLegendChar :: "char \<Rightarrow> bool" where
  "isLegendChar ch \<longleftrightarrow>
     ch \<in> set [CHR ''#'', CHR ''.'', CHR ''o'', CHR ''P'', CHR ''G'', CHR '' '', CHR ''A'',
                CHR ''B'', CHR ''5'']"

definition LEVEL_LEGEND :: "char \<Rightarrow> TileType" where
  "LEVEL_LEGEND ch =
     (if ch = CHR ''#'' then Wall
      else if ch = CHR ''.'' then Pellet
      else if ch = CHR ''o'' then Power
      else if ch = CHR ''P'' then PlayerStart
      else if ch = CHR ''G'' then GhostStart
      else Empty)"

text \<open>
  The first loop of \<open>parseLevel\<close>, for one row: the length test, then every character of
  the row. None of the tests ends the loop.
\<close>

definition rowErrors :: "int \<Rightarrow> int \<Rightarrow> string \<Rightarrow> LevelError list" where
  "rowErrors w cy row =
     (if int (length row) \<noteq> w then [RowLengthMismatch cy (int (length row)) w] else []) @
     concat (map (\<lambda>cx. if \<not> isLegendChar (row ! nat cx) then [InvalidChar (row ! nat cx) cx cy] else [])
                 [0..int (length row) - 1])"

definition gridErrors :: "string list \<Rightarrow> LevelError list" where
  "gridErrors rows =
     (let w = int (length (hd rows)) in
      (if w = 0 then [RowsEmpty] else []) @
      concat (map (\<lambda>cy. rowErrors w cy (rows ! nat cy)) [0..int (length rows) - 1]))"

text \<open>
  The second loop visits the positions row by row; each index list receives, in that
  order, the positions whose character is the one it collects.
\<close>

definition gridPositions :: "int \<Rightarrow> int \<Rightarrow> GridPos list" where
  "gridPositions w h = concat (map (\<lambda>cy. map (\<lambda>cx. (cx, cy)) [0..w - 1]) [0..h - 1])"

definition charAt :: "string list \<Rightarrow> GridPos \<Rightarrow> char" where
  "charAt rows p = rows ! nat (snd p) ! nat (fst p)"

definition positionsOf :: "string list \<Rightarrow> int \<Rightarrow> int \<Rightarrow> char list \<Rightarrow> GridPos list" where
  "positionsOf rows w h chs = filter (\<lambda>p. charAt rows p \<in> set chs) (gridPositions w h)"

definition parseLevel :: "LevelJson \<Rightarrow> LevelError list + ParsedLevel" where
  "parseLevel level =
     (if grid level = [] then Inl [GridNotArray]
      else
        let rows = grid level;
            h = int (length rows);
            w = int (length (hd rows));
            errs = gridErrors rows
        in
        if errs \<noteq> [] then Inl errs
        else
          Inr \<lparr> ident = levelId level,
                width = w,
                height = h,
                rawGrid = rows,
                tileMatrix = map (\<lambda>cy. map (\<lambda>cx. LEVEL_LEGEND (charAt rows (cx, cy))) [0..w - 1])
                                 [0..h - 1],
                startPos = (case positionsOf rows w h [CHR ''P''] of [] \<Rightarrow> None | p # _ \<Rightarrow> Some p),
                playerStartCount = int (length (positionsOf rows w h [CHR ''P''])),
                playerStarts = positionsOf rows w h [CHR ''P''],
                ghostStarts = positionsOf rows w h [CHR ''G''],
                pelletCount = int (length (positionsOf rows w h [CHR ''.''])),
                powerCount = int (length (positionsOf rows w h [CHR ''o''])),
                pelletPositions = positionsOf rows w h [CHR ''.'', CHR ''o''],
                bombPickupPositions = positionsOf rows w h [CHR ''A''],
                boxPositions = positionsOf rows w h [CHR ''B''],
                fruitSpawnPositions = positionsOf rows w h [CHR ''5''] \<rparr>)"

section \<open>Level validator (levelValidation.ts)\<close>

record ValidationResult =
  ok :: bool
  errors :: "LevelError list"

definition isAllowedBorderTunnelChar :: "char \<Rightarrow> bool" where
  "isAllowedBorderTunnelChar ch \<longleftrightarrow>
     ch = CHR '' '' \<or> ch = CHR ''.'' \<or> ch = CHR ''o'' \<or> ch = CHR ''A'' \<or> ch = CHR ''5''"

definition checkPair :: "char \<Rightarrow> int \<Rightarrow> int \<Rightarrow> char \<Rightarrow> int \<Rightarrow> int \<Rightarrow> Axis \<Rightarrow> LevelError list" where
  "checkPair a ax ay b bx by axis =
     (let aWall = (a = CHR ''#'');
          bWall = (b = CHR ''#'')
      in
      if aWall \<and> bWall then []
      else if aWall \<noteq> bWall then [TunnelMismatch axis ax ay a bx by b]
      else
        (if \<not> isAllowedBorderTunnelChar a then [InvalidTunnelTile ax ay a] else []) @
        (if \<not> isAllowedBorderTunnelChar b then [InvalidTunnelTile bx by b] else []))"

definition borderRules :: "string list \<Rightarrow> int \<Rightarrow> int \<Rightarrow> LevelError list" where
  "borderRules rows w h =
     (if w < 3 \<or> h < 3 then [TooSmall w h]
      else
        concat (map (\<lambda>cy. checkPair (charAt rows (0, cy)) 0 cy (charAt rows (w - 1, cy)) (w - 1) cy
                             Horizontal) [0..h - 1]) @
        concat (map (\<lambda>cx. checkPair (charAt rows (cx, 0)) cx 0 (charAt rows (cx, h - 1)) cx (h - 1)
                             Vertical) [0..w - 1]))"

text \<open>
  \<open>pelletsReachableFromStart\<close>: the search starts from every start tile of the grid at
  once. The first loop marks and enqueues the starts; the search itself is the loop of
  \<open>floodFill\<close>. The matrix is sized from \<open>tileMatrix\<close>.
\<close>

fun enqueueStarts :: "GridPos list \<Rightarrow> int \<Rightarrow> int \<Rightarrow> bool list list \<times> GridPos list \<Rightarrow>
                      bool list list \<times> GridPos list" where
  "enqueueStarts [] w h st = st"
| "enqueueStarts (s # ss) w h st =
     (if fst s < 0 \<or> snd s < 0 \<or> fst s \<ge> w \<or> snd s \<ge> h then enqueueStarts ss w h st
      else if visitedAt (fst st) s then enqueueStarts ss w h st
      else enqueueStarts ss w h (markVisited (fst st) s, snd st @ [s]))"

definition visitedFromStarts :: "ParsedLevel \<Rightarrow> GridPos list \<Rightarrow> bool list list" where
  "visitedFromStarts parsed starts =
     (let h = int (length (tileMatrix parsed));
          w = (case tileMatrix parsed of [] \<Rightarrow> 0 | row # _ \<Rightarrow> int (length row));
          visited = replicate (nat h) (replicate (nat w) False);
          st = enqueueStarts starts w h (visited, [])
      in floodFill parsed (fst st) (snd st))"

definition pelletsReachableFromStart ::
  "ParsedLevel \<Rightarrow> GridPos list \<Rightarrow> GridPos list \<Rightarrow> LevelError list" where
  "pelletsReachableFromStart parsed starts pellets =
     (let visited = visitedFromStarts parsed starts in
      concat (map (\<lambda>pellet. if \<not> visitedAt visited pellet
                             then [PelletNotReachable (fst pellet) (snd pellet)] else [])
                  pellets))"

definition validateLevel :: "LevelJson \<Rightarrow> ValidationResult" where
  "validateLevel level =
     (case parseLevel level of
        Inl errs \<Rightarrow> \<lparr> ok = False, errors = errs \<rparr>
      | Inr parsed \<Rightarrow>
          let errs =
                borderRules (rawGrid parsed) (width parsed) (height parsed) @
                (if playerStartCount parsed < 1 \<or> playerStartCount parsed > 2
                 then [PlayerStartCount (playerStartCount parsed)] else []) @
                (if pelletCount parsed < 1 then [NoPellet] else []) @
                (if int (length (ghostStarts parsed)) < 1 then [NoGhostStart] else []) @
                (if length (playerStarts parsed) > 0 \<and> pelletCount parsed > 0
                 then pelletsReachableFromStart parsed (playerStarts parsed) (pelletPositions parsed)
                 else [])
          in \<lparr> ok = (errs = []), errors = errs \<rparr>)"

definition lowLevelJson :: LevelJson where
  "lowLevelJson = \<lparr> levelId = None, grid = [''#P.'', ''#G#''] \<rparr>"

definition brokenLevelJson :: LevelJson where
  "brokenLevelJson = \<lparr> levelId = None, grid = [''#x#'', ''#P'', ''#?#''] \<rparr>"

definition crackedLevelJson :: LevelJson where
  "crackedLevelJson = \<lparr> levelId = None, grid = [''#####'', ''#P#..'', ''#####''] \<rparr>"

definition crackedParsed :: ParsedLevel where
  "crackedParsed =
     \<lparr> ident = None, width = 5, height = 3,
       rawGrid = [''#####'', ''#P#..'', ''#####''],
       tileMatrix =
         [[Wall, Wall, Wall, Wall, Wall],
          [Wall, PlayerStart, Wall, Pellet, Pellet],
          [Wall, Wall, Wall, Wall, Wall]],
       startPos = Some (1, 1), playerStartCount = 1,
       playerStarts = [(1, 1)], ghostStarts = [], pelletCount = 2,
       powerCount = 0, pelletPositions = [(3, 1), (4, 1)],
       bombPickupPositions = [], boxPositions = [],
       fruitSpawnPositions = [] \<rparr>"

section \<open>Procedural maze generator (pacRogue.ts)\<close>

text \<open>
  The working grid \<open>grid: string[][]\<close> has \<open>height\<close> rows of \<open>width\<close> cells and is
  never resized; it is a store from positions to characters. The generator's coordinates
  have their origin at the bottom left: \<open>get(x, y)\<close> reads \<open>grid[height - 1 - y][x]\<close>, and
  the store is indexed by \<open>(x, y)\<close>. \<open>gridGet\<close> is \<open>None\<close> where \<open>get\<close> is undefined.
\<close>

type_synonym Cells = "GridPos \<Rightarrow> char"

definition offGrid :: "int \<Rightarrow> int \<Rightarrow> int \<Rightarrow> int \<Rightarrow> bool" where
  "offGrid w h cx cy \<longleftrightarrow> cx < 0 \<or> cy < 0 \<or> cx \<ge> w \<or> cy \<ge> h"

definition gridGet :: "int \<Rightarrow> int \<Rightarrow> Cells \<Rightarrow> int \<Rightarrow> int \<Rightarrow> char option" where
  "gridGet w h g cx cy = (if offGrid w h cx cy then None else Some (g (cx, cy)))"

definition gridSet :: "int \<Rightarrow> int \<Rightarrow> int \<Rightarrow> int \<Rightarrow> char \<Rightarrow> Cells \<Rightarrow> Cells" where
  "gridSet w h cx cy v g = (if offGrid w h cx cy then g else g((cx, cy) := v))"

definition isWallAt :: "int \<Rightarrow> int \<Rightarrow> Cells \<Rightarrow> int \<Rightarrow> int \<Rightarrow> bool" where
  "isWallAt w h g cx cy \<longleftrightarrow> gridGet w h g cx cy = Some CHR ''#''"

definition setPellet :: "int \<Rightarrow> int \<Rightarrow> int \<Rightarrow> int \<Rightarrow> Cells \<Rightarrow> Cells" where
  "setPellet w h cx cy g =
     (case gridGet w h g cx cy of
        None \<Rightarrow> g
      | Some c \<Rightarrow> if c = CHR ''#'' then gridSet w h cx cy CHR ''.'' g else g)"

text \<open>The rows of the output, top to bottom: \<open>grid.map((row) => row.join(""))\<close>.\<close>

definition gridRows :: "int \<Rightarrow> int \<Rightarrow> Cells \<Rightarrow> string list" where
  "gridRows w h g = map (\<lambda>r. map (\<lambda>cx. g (cx, h - 1 - r)) [0..w - 1]) [0..h - 1]"

definition clampInt :: "int \<Rightarrow> int \<Rightarrow> int \<Rightarrow> int" where
  "clampInt v lo hi = max lo (min hi v)"

subsection \<open>Tile groups\<close>

datatype Shape =
    Plus | TriNorth | TriSouth | TriEast | TriWest
  | CornerNE | CornerSE | CornerNW | CornerSW | LineV | LineH | EmptyShape

text \<open>\<open>shapeDefinition\<close>: the 3x3 pattern \<open>def[x][y]\<close>, one list per column.\<close>

fun shapeDefinition :: "Shape \<Rightarrow> bool list list" where
  "shapeDefinition Plus = [[False, True, False], [True, True, True], [False, True, False]]"
| "shapeDefinition TriNorth = [[False, True, False], [False, True, True], [False, True, False]]"
| "shapeDefinition TriSouth = [[False, True, False], [True, True, False], [False, True, False]]"
| "shapeDefinition TriEast = [[False, False, False], [True, True, True], [False, True, False]]"
| "shapeDefinition TriWest = [[False, True, False], [True, True, True], [False, False, False]]"
| "shapeDefinition CornerNE = [[False, False, False], [False, True, True], [False, True, False]]"
| "shapeDefinition CornerSE = [[False, False, False], [True, True, False], [False, True, False]]"
| "shapeDefinition CornerNW = [[False, True, False], [False, True, True], [False, False, False]]"
| "shapeDefinition CornerSW = [[False, True, False], [True, True, False], [False, False, False]]"
| "shapeDefinition LineV = [[False, False, False], [True, True, True], [False, False, False]]"
| "shapeDefinition LineH = [[False, True, False], [False, True, False], [False, True, False]]"
| "shapeDefinition EmptyShape = [[False, False, False], [False, False, False], [False, False, False]]"

text \<open>
  Step 2 of \<open>generatePacRogueLevel\<close>: every group's pattern is written to the left part of
  the grid. \<open>groupDefs[gx][gy]\<close> is the shape chosen for the group.
\<close>

definition expandGroups :: "int \<Rightarrow> int \<Rightarrow> Shape list list \<Rightarrow> int \<Rightarrow> int \<Rightarrow> Cells \<Rightarrow> Cells" where
  "expandGroups w h groupDefs groupWidth groupHeight =
     fold (\<lambda>gx. fold (\<lambda>gy.
            fold (\<lambda>lx. fold (\<lambda>ly.
                   let cx = lx + gx * 3; cy = ly + gy * 3 in
                   if offGrid w h cx cy then id
                   else gridSet w h cx cy
                          (if shapeDefinition (groupDefs ! nat gx ! nat gy) ! nat lx ! nat ly
                           then CHR ''.'' else CHR ''#''))
                 [0..2]) [0..2])
          [0..groupHeight - 1]) [0..groupWidth - 1]"

definition mirrorLeftToRight :: "int \<Rightarrow> int \<Rightarrow> Cells \<Rightarrow> Cells" where
  "mirrorLeftToRight w h =
     fold (\<lambda>cy. fold (\<lambda>cx g.
            let mx = w - 1 - cx in
            if mx < cx then g
            else (case gridGet w h g cx cy of None \<Rightarrow> g | Some v \<Rightarrow> gridSet w h mx cy v g))
          [0..w - 1]) [0..h - 1]"

definition enforceBorderWalls :: "int \<Rightarrow> int \<Rightarrow> Cells \<Rightarrow> Cells" where
  "enforceBorderWalls w h g =
     fold (\<lambda>cy g'. gridSet w h (w - 1) cy CHR ''#'' (gridSet w h 0 cy CHR ''#'' g')) [0..h - 1]
       (fold (\<lambda>cx g'. gridSet w h cx (h - 1) CHR ''#'' (gridSet w h cx 0 CHR ''#'' g')) [0..w - 1] g)"

subsection \<open>Ghost box\<close>

record GhostBox =
  boxX0 :: int
  boxY0 :: int
  boxX1 :: int
  boxY1 :: int

definition ghostBoxOf :: "int \<Rightarrow> int \<Rightarrow> GhostBox" where
  "ghostBoxOf w h =
     (let boxWidth = clampInt 14 7 (max 7 (w - 2));
          boxHeight = clampInt 11 7 (max 7 (h - 2));
          halfHeight = (h - 1) div 2;
          halfWidth = w div 2;
          ghostBoxHalfHeight = (boxHeight - 1) div 2;
          ghostBoxHalfWidth = boxWidth div 2;
          startX = halfWidth - ghostBoxHalfWidth;
          startY = halfHeight - ghostBoxHalfHeight + 1
      in \<lparr> boxX0 = clampInt startX 1 (w - 2),
           boxY0 = clampInt startY 1 (h - 2),
           boxX1 = clampInt (startX + boxWidth - 1) 1 (w - 2),
           boxY1 = clampInt (startY + boxHeight - 1) 1 (h - 2) \<rparr>)"

definition onBoxBorder :: "GhostBox \<Rightarrow> int \<Rightarrow> int \<Rightarrow> bool" where
  "onBoxBorder b cx cy \<longleftrightarrow> cx = boxX0 b \<or> cx = boxX1 b \<or> cy = boxY0 b \<or> cy = boxY1 b"

definition inGhostBox :: "GhostBox \<Rightarrow> int \<Rightarrow> int \<Rightarrow> bool" where
  "inGhostBox b cx cy \<longleftrightarrow> cx \<ge> boxX0 b \<and> cx \<le> boxX1 b \<and> cy \<ge> boxY0 b \<and> cy \<le> boxY1 b"

text \<open>
  \<open>carveGhostBox\<close> writes the box and the door and fills the set \<open>ghostSpace\<close>; the
  state is the grid together with the list of ghost-space positions.
\<close>

definition carveGhostBox :: "int \<Rightarrow> int \<Rightarrow> Cells \<times> GridPos list \<Rightarrow> Cells \<times> GridPos list" where
  "carveGhostBox w h st =
     (let b = ghostBoxOf w h;
          st1 = fold (\<lambda>cy. fold (\<lambda>cx s.
                       (gridSet w h cx cy (if onBoxBorder b cx cy then CHR ''#'' else CHR '' '') (fst s),
                        if \<not> onBoxBorder b cx cy then addKey (cx, cy) (snd s) else snd s))
                     [boxX0 b..boxX1 b]) [boxY0 b..boxY1 b] st;
          doorX = (boxX0 b + boxX1 b) div 2
      in (gridSet w h doorX (boxY1 b + 2) CHR ''.''
            (gridSet w h doorX (boxY1 b + 1) CHR ''.''
               (gridSet w h doorX (boxY1 b) CHR '' '' (fst st1))),
          snd st1))"

subsection \<open>Pattern repair\<close>

definition INCORRECT_BIG_C :: string where "INCORRECT_BIG_C = ''111110111''"
definition INCORRECT_SMALL_C :: string where "INCORRECT_SMALL_C = ''101100011''"
definition INCORRECT_TL :: string where "INCORRECT_TL = ''111100011''"
definition INCORRECT_CRANE :: string where "INCORRECT_CRANE = ''101100111''"
definition INCORRECT_BIG_C_REVERSE :: string where "INCORRECT_BIG_C_REVERSE = ''111101111''"
definition INCORRECT_SMALL_C_REVERSE :: string where "INCORRECT_SMALL_C_REVERSE = ''111000110''"
definition INCORRECT_TL_REVERSE :: string where "INCORRECT_TL_REVERSE = ''111100110''"
definition INCORRECT_CRANE_REVERSE :: string where "INCORRECT_CRANE_REVERSE = ''111000111''"
definition INCORRECT_U :: string where "INCORRECT_U = ''110111111''"
definition INCORRECT_U_UPSIDEDOWN :: string where "INCORRECT_U_UPSIDEDOWN = ''111111101''"
definition INCORRECT_OCCUPIED :: string where "INCORRECT_OCCUPIED = ''101000010''"

definition determineTileCode :: "int \<Rightarrow> int \<Rightarrow> Cells \<Rightarrow> int \<Rightarrow> int \<Rightarrow> string" where
  "determineTileCode w h g cx cy =
     map (\<lambda>c. if offGrid w h (fst c) (snd c) then CHR ''1''
               else if isWallAt w h g (fst c) (snd c) then CHR ''1'' else CHR ''0'')
         [(cx, cy), (cx - 1, cy + 1), (cx, cy + 1), (cx + 1, cy + 1), (cx - 1, cy), (cx + 1, cy),
          (cx - 1, cy - 1), (cx, cy - 1), (cx + 1, cy - 1)]"

text \<open>
  The number of wall cells of the grid; every repair loop that runs again has opened a
  wall, which is why it stops.
\<close>

definition wallCount :: "int \<Rightarrow> int \<Rightarrow> Cells \<Rightarrow> nat" where
  "wallCount w h g = length (filter (\<lambda>p. g p = CHR ''#'') (gridPositions w h))"

lemma wallCount_gridSet_le:
  "v \<noteq> CHR ''#'' \<Longrightarrow> wallCount w h (gridSet w h cx cy v g) \<le> wallCount w h g"
proof -
  assume v: "v \<noteq> CHR ''#''"
  have "filter (\<lambda>p. gridSet w h cx cy v g p = CHR ''#'') (gridPositions w h)
          = filter (\<lambda>p. gridSet w h cx cy v g p = CHR ''#'')
              (filter (\<lambda>p. g p = CHR ''#'') (gridPositions w h))"
    using v by (auto simp: gridSet_def intro!: filter_cong)
  then show ?thesis
    unfolding wallCount_def by (metis length_filter_le)
qed

lemma gridPositions_mem:
  "\<not> offGrid w h cx cy \<Longrightarrow> (cx, cy) \<in> set (gridPositions w h)"
proof -
  assume "\<not> offGrid w h cx cy"
  then have "cy \<in> set [0..h - 1]" and "cx \<in> set [0..w - 1]"
    by (auto simp: offGrid_def)
  then show ?thesis
    unfolding gridPositions_def by (auto simp del: set_upto)
qed

lemma wallCount_gridSet_less:
  assumes "v \<noteq> CHR ''#''" and "isWallAt w h g cx cy"
  shows "wallCount w h (gridSet w h cx cy v g) < wallCount w h g"
proof -
  from assms(2) have on: "\<not> offGrid w h cx cy" and wl: "g (cx, cy) = CHR ''#''"
    by (auto simp: isWallAt_def gridGet_def split: if_splits)
  let ?ws = "filter (\<lambda>p. g p = CHR ''#'') (gridPositions w h)"
  have eq: "filter (\<lambda>p. gridSet w h cx cy v g p = CHR ''#'') (gridPositions w h)
          = filter (\<lambda>p. gridSet w h cx cy v g p = CHR ''#'') ?ws"
    using assms(1) by (auto simp: gridSet_def intro!: filter_cong)
  have "(cx, cy) \<in> set ?ws" using gridPositions_mem[OF on] wl by simp
  moreover have "\<not> gridSet w h cx cy v g (cx, cy) = CHR ''#''"
    using on assms(1) by (simp add: gridSet_def)
  ultimately have "length (filter (\<lambda>p. gridSet w h cx cy v g p = CHR ''#'') ?ws) < length ?ws"
    by (rule length_filter_less)
  then show ?thesis unfolding wallCount_def eq .
qed

lemma wallCount_setPellet_le: "wallCount w h (setPellet w h cx cy g) \<le> wallCount w h g"
  by (auto simp: setPellet_def wallCount_gridSet_le split: option.splits)

lemma wallCount_setPellet_less:
  "isWallAt w h g cx cy \<Longrightarrow> wallCount w h (setPellet w h cx cy g) < wallCount w h g"
  by (auto simp: setPellet_def isWallAt_def wallCount_gridSet_less split: option.splits)

text \<open>
  \<open>addPelletsToWidth\<close>: one scan of the grid is \<open>widthPass\<close>, with the flag \<open>reUpdate\<close>;
  the \<open>do ... while (reUpdate)\<close> loop repeats the scan.
\<close>

definition widthStep :: "int \<Rightarrow> int \<Rightarrow> int \<Rightarrow> int \<Rightarrow> Cells \<times> bool \<Rightarrow> Cells \<times> bool" where
  "widthStep w h cx cy st =
     (let g = fst st; reUpdate = snd st in
      if \<not> isWallAt w h g cx cy then st
      else
        let code = determineTileCode w h g cx cy in
        if code = INCORRECT_BIG_C
          then (setPellet w h (cx - 1) cy (setPellet w h cx cy g), True)
        else if code = INCORRECT_SMALL_C \<or> code = INCORRECT_TL \<or> code = INCORRECT_CRANE
          then (setPellet w h cx cy g, reUpdate)
        else if code = INCORRECT_BIG_C_REVERSE
          then (setPellet w h (cx + 1) cy (setPellet w h cx cy g), reUpdate)
        else if code = INCORRECT_SMALL_C_REVERSE \<or> code = INCORRECT_TL_REVERSE \<or>
                code = INCORRECT_CRANE_REVERSE
          then (setPellet w h cx cy g, reUpdate)
        else st)"

definition widthPass :: "int \<Rightarrow> int \<Rightarrow> Cells \<Rightarrow> Cells \<times> bool" where
  "widthPass w h g = fold (\<lambda>cx. fold (\<lambda>cy. widthStep w h cx cy) [0..h - 1]) [0..w - 1] (g, False)"

text \<open>
  A scan keeps \<open>scanProgress\<close>: it opens walls only, and it has opened one when its flag
  is set.
\<close>

definition scanProgress :: "int \<Rightarrow> int \<Rightarrow> Cells \<Rightarrow> Cells \<times> bool \<Rightarrow> bool" where
  "scanProgress w h g st \<longleftrightarrow>
     wallCount w h (fst st) \<le> wallCount w h g \<and> (snd st \<longrightarrow> wallCount w h (fst st) < wallCount w h g)"

lemma fold_invariant:
  "I s \<Longrightarrow> (\<And>a t. a \<in> set xs \<Longrightarrow> I t \<Longrightarrow> I (f a t)) \<Longrightarrow> I (fold f xs s)"
  by (induction xs arbitrary: s) auto

lemma widthStep_progress:
  assumes "scanProgress w h g st"
  shows "scanProgress w h g (widthStep w h cx cy st)"
proof (cases "isWallAt w h (fst st) cx cy")
  case False
  with assms show ?thesis by (simp add: widthStep_def Let_def)
next
  case True
  have le1: "wallCount w h (setPellet w h cx cy (fst st)) < wallCount w h (fst st)"
    by (rule wallCount_setPellet_less[OF True])
  have le2: "wallCount w h (setPellet w h cx' cy' (setPellet w h cx cy (fst st)))
               < wallCount w h (fst st)" for cx' cy'
    using le1 wallCount_setPellet_le[of w h cx' cy' "setPellet w h cx cy (fst st)"] by linarith
  have keep: "scanProgress w h g (g', snd st)"
    if "wallCount w h g' < wallCount w h (fst st)" for g'
    using assms that unfolding scanProgress_def by auto
  have flag: "scanProgress w h g (g', True)"
    if "wallCount w h g' < wallCount w h (fst st)" for g'
    using assms that unfolding scanProgress_def by auto
  show ?thesis
    unfolding widthStep_def Let_def
    using True assms keep[OF le1] keep[OF le2] flag[OF le2] by simp
qed

lemma widthPass_progress: "scanProgress w h g (widthPass w h g)"
  unfolding widthPass_def
proof (rule fold_invariant[where I = "scanProgress w h g"])
  show "scanProgress w h g (g, False)" by (simp add: scanProgress_def)
next
  fix a t assume "scanProgress w h g t"
  then show "scanProgress w h g (fold (\<lambda>cy. widthStep w h a cy) [0..h - 1] t)"
    by (rule fold_invariant[where I = "scanProgress w h g"]) (rule widthStep_progress)
qed

function addPelletsToWidth :: "int \<Rightarrow> int \<Rightarrow> Cells \<Rightarrow> Cells" where
  "addPelletsToWidth w h g =
     (if snd (widthPass w h g) then addPelletsToWidth w h (fst (widthPass w h g))
      else fst (widthPass w h g))"
  by pat_completeness auto
termination
proof (relation "measure (\<lambda>(w, h, g). wallCount w h g)")
  show "wf (measure (\<lambda>(w, h, g). wallCount w h g))" by simp
next
  fix w h :: int and g :: Cells
  assume "snd (widthPass w h g)"
  then show "((w, h, fst (widthPass w h g)), (w, h, g)) \<in> measure (\<lambda>(w, h, g). wallCount w h g)"
    using widthPass_progress[of w h g] by (simp add: scanProgress_def)
qed

declare addPelletsToWidth.simps [simp del]

text \<open>
  \<open>addPelletsToHeight\<close>. The two inner \<open>while (true)\<close> loops open the column below or
  above the tile: \<open>digSouth\<close> and \<open>digNorth\<close>, on the variable \<open>cy\<close>.
\<close>

definition threeInside :: "int \<Rightarrow> int \<Rightarrow> Cells \<Rightarrow> int \<Rightarrow> int \<Rightarrow> bool" where
  "threeInside w h g cx ry \<longleftrightarrow>
     gridGet w h g cx ry \<noteq> None \<and> gridGet w h g (cx + 1) ry \<noteq> None \<and>
     gridGet w h g (cx - 1) ry \<noteq> None"

definition threeOccupied :: "int \<Rightarrow> int \<Rightarrow> Cells \<Rightarrow> int \<Rightarrow> int \<Rightarrow> bool" where
  "threeOccupied w h g cx ry \<longleftrightarrow>
     isWallAt w h g cx ry \<and> isWallAt w h g (cx + 1) ry \<and> isWallAt w h g (cx - 1) ry"

function digSouth :: "int \<Rightarrow> int \<Rightarrow> int \<Rightarrow> int \<Rightarrow> Cells \<Rightarrow> Cells" where
  "digSouth w h cx cy g =
     (if cy - 1 \<le> 0 then g
      else if \<not> threeInside w h g cx (cy - 1) then g
      else if \<not> threeOccupied w h g cx (cy - 1) then setPellet w h cx (cy - 1) g
      else digSouth w h cx (cy - 1) (setPellet w h cx (cy - 1) g))"
  by pat_completeness auto
termination
  by (relation "measure (\<lambda>(w, h, cx, cy, g). nat cy)") auto

declare digSouth.simps [simp del]

function digNorth :: "int \<Rightarrow> int \<Rightarrow> int \<Rightarrow> int \<Rightarrow> Cells \<Rightarrow> Cells" where
  "digNorth w h cx cy g =
     (if cy + 1 \<ge> h - 1 then g
      else if \<not> threeInside w h g cx (cy + 1) then g
      else if \<not> threeOccupied w h g cx (cy + 1) then setPellet w h cx (cy + 1) g
      else digNorth w h cx (cy + 1) (setPellet w h cx (cy + 1) g))"
  by pat_completeness auto
termination
  by (relation "measure (\<lambda>(w, h, cx, cy, g). nat (h - cy))") auto

declare digNorth.simps [simp del]

lemma digSouth_invariant:
  assumes "\<And>px py t. I t \<Longrightarrow> I (setPellet w h px py t)" and "I g"
  shows "I (digSouth w h cx cy g)"
  using assms
proof (induction w h cx cy g rule: digSouth.induct)
  case (1 w h cx cy g)
  have sp: "I (setPellet w h cx (cy - 1) g)"
    using "1.prems" by blast
  show ?case
  proof (cases "cy - 1 \<le> 0 \<or> \<not> threeInside w h g cx (cy - 1)")
    case True
    then show ?thesis using "1.prems"(2) by (subst digSouth.simps) auto
  next
    case False
    show ?thesis
    proof (cases "threeOccupied w h g cx (cy - 1)")
      case True
      have "I (digSouth w h cx (cy - 1) (setPellet w h cx (cy - 1) g))"
        using "1.IH" False True "1.prems"(1) sp by blast
      then show ?thesis using False True by (subst digSouth.simps) simp
    next
      case nocc: False
      then show ?thesis using False sp by (subst digSouth.simps) simp
    qed
  qed
qed

lemma digNorth_invariant:
  assumes "\<And>px py t. I t \<Longrightarrow> I (setPellet w h px py t)" and "I g"
  shows "I (digNorth w h cx cy g)"
  using assms
proof (induction w h cx cy g rule: digNorth.induct)
  case (1 w h cx cy g)
  have sp: "I (setPellet w h cx (cy + 1) g)"
    using "1.prems" by blast
  show ?case
  proof (cases "cy + 1 \<ge> h - 1 \<or> \<not> threeInside w h g cx (cy + 1)")
    case True
    then show ?thesis using "1.prems"(2) by (subst digNorth.simps) auto
  next
    case False
    show ?thesis
    proof (cases "threeOccupied w h g cx (cy + 1)")
      case True
      have "I (digNorth w h cx (cy + 1) (setPellet w h cx (cy + 1) g))"
        using "1.IH" False True "1.prems"(1) sp by blast
      then show ?thesis using False True by (subst digNorth.simps) simp
    next
      case nocc: False
      then show ?thesis using False sp by (subst digNorth.simps) simp
    qed
  qed
qed

lemma wallCount_digSouth_le: "wallCount w h (digSouth w h cx cy g) \<le> wallCount w h g"
  by (rule digSouth_invariant[where I = "\<lambda>t. wallCount w h t \<le> wallCount w h g"])
     (auto intro: le_trans[OF wallCount_setPellet_le])

lemma wallCount_digNorth_le: "wallCount w h (digNorth w h cx cy g) \<le> wallCount w h g"
  by (rule digNorth_invariant[where I = "\<lambda>t. wallCount w h t \<le> wallCount w h g"])
     (auto intro: le_trans[OF wallCount_setPellet_le])

definition heightStep :: "int \<Rightarrow> int \<Rightarrow> int \<Rightarrow> int \<Rightarrow> Cells \<times> bool \<Rightarrow> Cells \<times> bool" where
  "heightStep w h cx cy st =
     (let g = fst st in
      if \<not> isWallAt w h g cx cy then st
      else
        let code = determineTileCode w h g cx cy in
        if code = INCORRECT_U then (digSouth w h cx cy (setPellet w h cx cy g), True)
        else if code = INCORRECT_U_UPSIDEDOWN then (digNorth w h cx cy (setPellet w h cx cy g), True)
        else st)"

definition heightPass :: "int \<Rightarrow> int \<Rightarrow> Cells \<Rightarrow> Cells \<times> bool" where
  "heightPass w h g = fold (\<lambda>cx. fold (\<lambda>cy. heightStep w h cx cy) [0..h - 1]) [0..w - 1] (g, False)"

lemma heightStep_progress:
  assumes "scanProgress w h g st"
  shows "scanProgress w h g (heightStep w h cx cy st)"
proof (cases "isWallAt w h (fst st) cx cy")
  case False
  with assms show ?thesis by (simp add: heightStep_def Let_def)
next
  case True
  have le1: "wallCount w h (setPellet w h cx cy (fst st)) < wallCount w h (fst st)"
    by (rule wallCount_setPellet_less[OF True])
  have s: "wallCount w h (digSouth w h cx cy (setPellet w h cx cy (fst st))) < wallCount w h (fst st)"
    using le1 wallCount_digSouth_le[of w h cx cy "setPellet w h cx cy (fst st)"] by linarith
  have n: "wallCount w h (digNorth w h cx cy (setPellet w h cx cy (fst st))) < wallCount w h (fst st)"
    using le1 wallCount_digNorth_le[of w h cx cy "setPellet w h cx cy (fst st)"] by linarith
  have flag: "scanProgress w h g (g', True)"
    if "wallCount w h g' < wallCount w h (fst st)" for g'
    using assms that unfolding scanProgress_def by auto
  show ?thesis
    unfolding heightStep_def Let_def
    using True assms flag[OF s] flag[OF n] by simp
qed

lemma heightPass_progress: "scanProgress w h g (heightPass w h g)"
  unfolding heightPass_def
proof (rule fold_invariant[where I = "scanProgress w h g"])
  show "scanProgress w h g (g, False)" by (simp add: scanProgress_def)
next
  fix a t assume "scanProgress w h g t"
  then show "scanProgress w h g (fold (\<lambda>cy. heightStep w h a cy) [0..h - 1] t)"
    by (rule fold_invariant[where I = "scanProgress w h g"]) (rule heightStep_progress)
qed

function addPelletsToHeight :: "int \<Rightarrow> int \<Rightarrow> Cells \<Rightarrow> Cells" where
  "addPelletsToHeight w h g =
     (if snd (heightPass w h g) then addPelletsToHeight w h (fst (heightPass w h g))
      else fst (heightPass w h g))"
  by pat_completeness auto
termination
proof (relation "measure (\<lambda>(w, h, g). wallCount w h g)")
  show "wf (measure (\<lambda>(w, h, g). wallCount w h g))" by simp
next
  fix w h :: int and g :: Cells
  assume "snd (heightPass w h g)"
  then show "((w, h, fst (heightPass w h g)), (w, h, g)) \<in> measure (\<lambda>(w, h, g). wallCount w h g)"
    using heightPass_progress[of w h g] by (simp add: scanProgress_def)
qed

declare addPelletsToHeight.simps [simp del]

definition addMissingPellets :: "int \<Rightarrow> int \<Rightarrow> Cells \<Rightarrow> Cells" where
  "addMissingPellets w h g = addPelletsToHeight w h (addPelletsToWidth w h g)"

text \<open>
  \<open>removeIncorrectTiles\<close>: the first loop collects the positions to open, from the grid as
  it is on entry; the second opens those that are walls and have no ghost-space tile to
  their left or right.
\<close>

definition addInGrid :: "int \<Rightarrow> int \<Rightarrow> int \<Rightarrow> int \<Rightarrow> GridPos list \<Rightarrow> GridPos list" where
  "addInGrid w h cx cy toOpen = (if offGrid w h cx cy then toOpen else addKey (cx, cy) toOpen)"

definition collectToOpen :: "int \<Rightarrow> int \<Rightarrow> Cells \<Rightarrow> GridPos list" where
  "collectToOpen w h g =
     fold (\<lambda>cx. fold (\<lambda>cy toOpen.
            if \<not> isWallAt w h g cx cy then toOpen
            else if determineTileCode w h g cx cy \<noteq> INCORRECT_OCCUPIED then toOpen
            else addInGrid w h cx (cy - 1) (addInGrid w h cx (cy + 1) (addInGrid w h cx cy toOpen)))
          [0..h - 1]) [0..w - 1] []"

definition openTile :: "int \<Rightarrow> int \<Rightarrow> GridPos list \<Rightarrow> GridPos \<Rightarrow> Cells \<Rightarrow> Cells" where
  "openTile w h ghostSpace k g =
     (let cx = fst k; cy = snd k;
          ghostTile = ((cx + 1, cy) \<in> set ghostSpace \<or> (cx - 1, cy) \<in> set ghostSpace)
      in if ghostTile then g
         else if gridGet w h g cx cy = Some CHR ''#'' then gridSet w h cx cy CHR ''.'' g else g)"

definition removeIncorrectTiles :: "int \<Rightarrow> int \<Rightarrow> GridPos list \<Rightarrow> Cells \<Rightarrow> Cells" where
  "removeIncorrectTiles w h ghostSpace g = fold (openTile w h ghostSpace) (collectToOpen w h g) g"

subsection \<open>Connectivity\<close>

text \<open>
  \<open>findComponent\<close> inside \<open>checkForConnectedPath\<close>: a flood fill over the tiles that are
  neither walls nor on the border ring. The sets \<open>visited\<close> and \<open>comp\<close> are lists in
  insertion order; the loop state is \<open>(visited, compo, queue)\<close>.
\<close>

definition onRim :: "int \<Rightarrow> int \<Rightarrow> GridPos \<Rightarrow> bool" where
  "onRim w h n \<longleftrightarrow> fst n \<le> 0 \<or> snd n \<le> 0 \<or> fst n \<ge> w - 1 \<or> snd n \<ge> h - 1"

definition compNeighbours :: "GridPos \<Rightarrow> GridPos list" where
  "compNeighbours p = [(fst p, snd p + 1), (fst p, snd p - 1), (fst p + 1, snd p), (fst p - 1, snd p)]"

definition compVisit ::
  "int \<Rightarrow> int \<Rightarrow> Cells \<Rightarrow> GridPos \<Rightarrow> GridPos list \<times> GridPos list \<times> GridPos list \<Rightarrow>
   GridPos list \<times> GridPos list \<times> GridPos list" where
  "compVisit w h g n st =
     (if onRim w h n then st
      else if isWallAt w h g (fst n) (snd n) then st
      else if n \<in> set (fst st) then st
      else (fst st @ [n], fst (snd st) @ [n], snd (snd st) @ [n]))"

definition unvisitedInside :: "int \<Rightarrow> int \<Rightarrow> GridPos list \<Rightarrow> nat" where
  "unvisitedInside w h visited = length (filter (\<lambda>p. p \<notin> set visited) (gridPositions w h))"

lemma unvisitedInside_snoc:
  assumes "\<not> onRim w h n" and "n \<notin> set visited"
  shows "unvisitedInside w h (visited @ [n]) < unvisitedInside w h visited"
proof -
  let ?us = "filter (\<lambda>p. p \<notin> set visited) (gridPositions w h)"
  have eq: "filter (\<lambda>p. p \<notin> set (visited @ [n])) (gridPositions w h)
              = filter (\<lambda>p. p \<notin> set (visited @ [n])) ?us"
    by (auto intro!: filter_cong)
  from assms(1) have "\<not> offGrid w h (fst n) (snd n)" by (auto simp: onRim_def offGrid_def)
  then have "n \<in> set (gridPositions w h)" using gridPositions_mem[of w h "fst n" "snd n"] by simp
  with assms(2) have "n \<in> set ?us" by simp
  moreover have "\<not> n \<notin> set (visited @ [n])" by simp
  ultimately have "length (filter (\<lambda>p. p \<notin> set (visited @ [n])) ?us) < length ?us"
    by (rule length_filter_less)
  then show ?thesis unfolding unvisitedInside_def eq .
qed

lemma compVisit_measure:
  "unvisitedInside w h (fst (compVisit w h g n st)) + length (snd (snd (compVisit w h g n st)))
     \<le> unvisitedInside w h (fst st) + length (snd (snd st))"
proof (cases "onRim w h n \<or> isWallAt w h g (fst n) (snd n) \<or> n \<in> set (fst st)")
  case True
  then show ?thesis by (auto simp: compVisit_def)
next
  case False
  then have "unvisitedInside w h (fst st @ [n]) < unvisitedInside w h (fst st)"
    using unvisitedInside_snoc by blast
  with False show ?thesis by (simp add: compVisit_def)
qed

lemma fold_compVisit_measure:
  "unvisitedInside w h (fst (fold (compVisit w h g) ns st)) +
     length (snd (snd (fold (compVisit w h g) ns st)))
     \<le> unvisitedInside w h (fst st) + length (snd (snd st))"
proof (induction ns arbitrary: st)
  case Nil
  show ?case by simp
next
  case (Cons n ns)
  show ?case
    using Cons.IH[of "compVisit w h g n st"] compVisit_measure[of w h g n st] by simp
qed

function compLoop ::
  "int \<Rightarrow> int \<Rightarrow> Cells \<Rightarrow> GridPos list \<Rightarrow> GridPos list \<Rightarrow> GridPos list \<Rightarrow> GridPos list \<times> GridPos list" where
  "compLoop w h g visited compo [] = (visited, compo)"
| "compLoop w h g visited compo (p # rest) =
     compLoop w h g
       (fst (fold (compVisit w h g) (compNeighbours p) (visited, compo, rest)))
       (fst (snd (fold (compVisit w h g) (compNeighbours p) (visited, compo, rest))))
       (snd (snd (fold (compVisit w h g) (compNeighbours p) (visited, compo, rest))))"
  by pat_completeness auto
termination
proof (relation "measure (\<lambda>(w, h, g, visited, compo, q). unvisitedInside w h visited + length q)")
  show "wf (measure (\<lambda>(w, h, g, visited, compo, q). unvisitedInside w h visited + length q))"
    by simp
next
  fix w h :: int and g :: Cells and visited compo rest :: "GridPos list" and p :: GridPos
  show "((w, h, g,
          fst (fold (compVisit w h g) (compNeighbours p) (visited, compo, rest)),
          fst (snd (fold (compVisit w h g) (compNeighbours p) (visited, compo, rest))),
          snd (snd (fold (compVisit w h g) (compNeighbours p) (visited, compo, rest)))),
         (w, h, g, visited, compo, p # rest))
          \<in> measure (\<lambda>(w, h, g, visited, compo, q). unvisitedInside w h visited + length q)"
    using fold_compVisit_measure[of w h g "compNeighbours p" "(visited, compo, rest)"]
    by (simp add: case_prod_beta)
qed

definition findComponent ::
  "int \<Rightarrow> int \<Rightarrow> Cells \<Rightarrow> GridPos list \<Rightarrow> GridPos \<Rightarrow> GridPos list \<times> GridPos list" where
  "findComponent w h g visited s = compLoop w h g (addKey s visited) [s] [s]"

datatype GenDir = North | South | East | West

fun dirVec :: "GenDir \<Rightarrow> int \<times> int" where
  "dirVec North = (0, 1)"
| "dirVec South = (0, -1)"
| "dirVec East = (1, 0)"
| "dirVec West = (-1, 0)"

text \<open>
  \<open>validate\<close> inside \<open>placePelletsForDisconnectedPath\<close>: the walk from the tile next to
  the start along \<open>dir\<close>; \<open>None\<close> is the result \<open>ok: false\<close>, \<open>Some (length, end)\<close> the
  result \<open>ok: true\<close> with the number of walls crossed and the tile that ends the walk.
\<close>

function rayWalk ::
  "int \<Rightarrow> int \<Rightarrow> Cells \<Rightarrow> GenDir \<Rightarrow> int \<Rightarrow> int \<Rightarrow> int \<Rightarrow> (int \<times> GridPos) option" where
  "rayWalk w h g dir nx ny len =
     (if offGrid w h nx ny then None
      else if isWallAt w h g nx ny
        then rayWalk w h g dir (nx + fst (dirVec dir)) (ny + snd (dirVec dir)) (len + 1)
      else Some (len, (nx, ny)))"
  by pat_completeness auto
termination
proof (relation "measure (\<lambda>(w, h, g, dir, nx, ny, len).
          case dir of North \<Rightarrow> nat (h - ny) | South \<Rightarrow> nat (ny + 1)
                    | East \<Rightarrow> nat (w - nx) | West \<Rightarrow> nat (nx + 1))")
  show "wf (measure (\<lambda>(w, h, g, dir, nx, ny, len).
          case dir of North \<Rightarrow> nat (h - ny) | South \<Rightarrow> nat (ny + 1)
                    | East \<Rightarrow> nat (w - nx) | West \<Rightarrow> nat (nx + 1)))"
    by simp
next
  fix w h :: int and g :: Cells and dir :: GenDir and nx ny len :: int
  assume "\<not> offGrid w h nx ny"
  then show "((w, h, g, dir, nx + fst (dirVec dir), ny + snd (dirVec dir), len + 1),
              (w, h, g, dir, nx, ny, len))
          \<in> measure (\<lambda>(w, h, g, dir, nx, ny, len).
                case dir of North \<Rightarrow> nat (h - ny) | South \<Rightarrow> nat (ny + 1)
                          | East \<Rightarrow> nat (w - nx) | West \<Rightarrow> nat (nx + 1))"
    by (cases dir) (auto simp: offGrid_def)
qed

declare rayWalk.simps [simp del]

definition validate :: "int \<Rightarrow> int \<Rightarrow> Cells \<Rightarrow> int \<Rightarrow> int \<Rightarrow> GenDir \<Rightarrow> (int \<times> GridPos) option" where
  "validate w h g cx cy dir = rayWalk w h g dir (cx + fst (dirVec dir)) (cy + snd (dirVec dir)) 0"

definition mirrorAndPellet :: "int \<Rightarrow> int \<Rightarrow> int \<Rightarrow> int \<Rightarrow> Cells \<Rightarrow> Cells" where
  "mirrorAndPellet w h cx cy g =
     (let mx = w - 1 - cx in
      if gridGet w h g mx cy = Some CHR ''#'' then setPellet w h mx cy g else g)"

text \<open>
  The candidates of one start tile, in the order north, south, east, west; the stable
  sort by length puts first the earliest candidate of the smallest length.
\<close>

definition corridorCandidates ::
  "int \<Rightarrow> int \<Rightarrow> Cells \<Rightarrow> GridPos list \<Rightarrow> GridPos \<Rightarrow> (GenDir \<times> int) list" where
  "corridorCandidates w h g unlinked start =
     concat (map (\<lambda>dir.
        case validate w h g (fst start) (snd start) dir of
          None \<Rightarrow> []
        | Some r \<Rightarrow> if fst r \<le> 0 then []
                    else if snd r \<notin> set unlinked then []
                    else [(dir, fst r)])
       [North, South, East, West])"

definition shortestFirst :: "(GenDir \<times> int) list \<Rightarrow> (GenDir \<times> int) option" where
  "shortestFirst cands =
     (case cands of
        [] \<Rightarrow> None
      | c # cs \<Rightarrow> Some (fold (\<lambda>d best. if snd d < snd best then d else best) cs c))"

definition carveCorridorTile ::
  "int \<Rightarrow> int \<Rightarrow> GridPos \<Rightarrow> GenDir \<Rightarrow> int \<Rightarrow> Cells \<times> bool \<Rightarrow> Cells \<times> bool" where
  "carveCorridorTile w h start dir i st =
     (let cx = fst start + fst (dirVec dir) * i;
          cy = snd start + snd (dirVec dir) * i
      in
      if onRim w h (cx, cy) then st
      else
        let st1 = (if gridGet w h (fst st) cx cy = Some CHR ''#''
                   then (setPellet w h cx cy (fst st), True) else st);
            mx = w - 1 - cx
        in
        if mx \<le> 0 \<or> mx \<ge> w - 1 then st1
        else if gridGet w h (fst st1) mx cy = Some CHR ''#''
          then (mirrorAndPellet w h cx cy (fst st1), True)
        else st1)"

definition carveFromStart ::
  "int \<Rightarrow> int \<Rightarrow> GridPos list \<Rightarrow> GridPos \<Rightarrow> Cells \<times> bool \<Rightarrow> Cells \<times> bool" where
  "carveFromStart w h unlinked start st =
     (case shortestFirst (corridorCandidates w h (fst st) unlinked start) of
        None \<Rightarrow> st
      | Some best \<Rightarrow> fold (carveCorridorTile w h start (fst best)) [1..snd best] st)"

definition isEligible :: "int \<Rightarrow> int \<Rightarrow> Cells \<Rightarrow> GridPos \<Rightarrow> bool" where
  "isEligible w h g p \<longleftrightarrow>
     (let cx = fst p; cy = snd p;
          halfGrid = (2 * cx + 2 < w);
          centerPellet = (cx mod 3 = 1 \<and> cy mod 3 = 1)
      in halfGrid \<and> centerPellet \<and>
         (isWallAt w h g (cx - 1) cy \<or> isWallAt w h g (cx + 1) cy \<or>
          isWallAt w h g cx (cy - 1) \<or> isWallAt w h g cx (cy + 1)))"

text \<open>
  \<open>fallbackConnectComponents\<close>: the nearest pair among the first 250 tiles of each
  component, then an L-shaped corridor, first along x, then along y.
\<close>

definition nearestPair ::
  "GridPos list \<Rightarrow> GridPos list \<Rightarrow> GridPos \<times> GridPos \<times> int option \<Rightarrow> GridPos \<times> GridPos \<times> int option" where
  "nearestPair as bs =
     fold (\<lambda>a. fold (\<lambda>b best.
            let d = \<bar>fst a - fst b\<bar> + \<bar>snd a - snd b\<bar> in
            case snd (snd best) of
              None \<Rightarrow> (a, b, Some d)
            | Some bestD \<Rightarrow> if d < bestD then (a, b, Some d) else best)
          bs) as"

definition carveTile :: "int \<Rightarrow> int \<Rightarrow> int \<Rightarrow> int \<Rightarrow> Cells \<times> bool \<Rightarrow> Cells \<times> bool" where
  "carveTile w h cx cy st =
     (if onRim w h (cx, cy) then st
      else if gridGet w h (fst st) cx cy = Some CHR ''#''
        then (mirrorAndPellet w h cx cy (setPellet w h cx cy (fst st)), True)
      else st)"

definition stepsTowards :: "int \<Rightarrow> int \<Rightarrow> int list" where
  "stepsTowards a b = (if b \<ge> a then [a + 1..b] else rev [b..a - 1])"

definition fallbackConnectComponents ::
  "int \<Rightarrow> int \<Rightarrow> GridPos list \<Rightarrow> GridPos list \<Rightarrow> Cells \<Rightarrow> Cells \<times> bool" where
  "fallbackConnectComponents w h linked unlinked g =
     (let linkedList = take 250 linked;
          unlinkedList = take 250 unlinked
      in
      if linkedList = [] \<or> unlinkedList = [] then (g, False)
      else
        let best = nearestPair linkedList unlinkedList
                     (hd linkedList, hd unlinkedList, None);
            bestA = fst best;
            bestB = fst (snd best);
            st1 = fold (\<lambda>cx. carveTile w h cx (snd bestA)) (stepsTowards (fst bestA) (fst bestB))
                    (g, False)
        in fold (\<lambda>cy. carveTile w h (fst bestB) cy) (stepsTowards (snd bestA) (snd bestB)) st1)"

definition placePelletsForDisconnectedPath ::
  "int \<Rightarrow> int \<Rightarrow> GridPos list \<Rightarrow> GridPos list \<Rightarrow> Cells \<Rightarrow> Cells \<times> bool" where
  "placePelletsForDisconnectedPath w h linked unlinked g =
     (let eligible = filter (isEligible w h g) linked;
          st = fold (carveFromStart w h unlinked) eligible (g, False)
      in if snd st then (fst st, True)
         else fallbackConnectComponents w h linked unlinked (fst st))"

text \<open>
  The scan of \<open>checkForConnectedPath\<close> over the inner tiles, row by row. The first
  unvisited open tile gives the component \<open>connected\<close>; the second one ends the scan with a
  corridor towards its component. The result is the grid and the field \<open>connected\<close>.
\<close>

fun scanComponents ::
  "int \<Rightarrow> int \<Rightarrow> Cells \<Rightarrow> GridPos list \<Rightarrow> GridPos list \<Rightarrow> GridPos list option \<Rightarrow> Cells \<times> bool" where
  "scanComponents w h g [] visited linked = (g, True)"
| "scanComponents w h g (p # ps) visited linked =
     (if p \<in> set visited then scanComponents w h g ps visited linked
      else if isWallAt w h g (fst p) (snd p) then scanComponents w h g ps visited linked
      else
        (case linked of
           None \<Rightarrow>
             scanComponents w h g ps (fst (findComponent w h g visited p))
               (Some (snd (findComponent w h g visited p)))
         | Some compo \<Rightarrow>
             (fst (placePelletsForDisconnectedPath w h compo
                     (snd (findComponent w h g visited p)) g), False)))"

definition innerPositions :: "int \<Rightarrow> int \<Rightarrow> GridPos list" where
  "innerPositions w h = concat (map (\<lambda>cy. map (\<lambda>cx. (cx, cy)) [1..w - 2]) [1..h - 2])"

definition checkForConnectedPath :: "int \<Rightarrow> int \<Rightarrow> Cells \<Rightarrow> Cells \<times> bool" where
  "checkForConnectedPath w h g = scanComponents w h g (innerPositions w h) [] None"

text \<open>The loop \<open>while (guard++ < 80)\<close> of step 5, on the number of rounds left.\<close>

fun connectLoop :: "nat \<Rightarrow> int \<Rightarrow> int \<Rightarrow> GridPos list \<Rightarrow> Cells \<Rightarrow> Cells" where
  "connectLoop 0 w h ghostSpace g = g"
| "connectLoop (Suc n) w h ghostSpace g =
     (let result = checkForConnectedPath w h g;
          g' = removeIncorrectTiles w h ghostSpace (fst result)
      in if snd result then g' else connectLoop n w h ghostSpace g')"

subsection \<open>Power pellets, pellet fill and spawns\<close>

definition placeMirrored :: "int \<Rightarrow> int \<Rightarrow> int \<Rightarrow> int \<Rightarrow> Cells \<Rightarrow> Cells" where
  "placeMirrored w h cx cy g =
     (let mx = w - 1 - cx;
          g1 = (if gridGet w h g cx cy = Some CHR ''.'' then gridSet w h cx cy CHR ''o'' g else g)
      in if gridGet w h g1 mx cy = Some CHR ''.'' then gridSet w h mx cy CHR ''o'' g1 else g1)"

text \<open>
  Each of the two scans of \<open>placePowerPellets\<close> ends at the first pellet it finds outside
  the ghost box (the assignment to \<open>y\<close> before \<open>break\<close> ends the outer loop).
\<close>

definition firstPellet :: "int \<Rightarrow> int \<Rightarrow> Cells \<Rightarrow> GhostBox \<Rightarrow> int list \<Rightarrow> GridPos option" where
  "firstPellet w h g b rowsToScan =
     find (\<lambda>p. \<not> inGhostBox b (fst p) (snd p) \<and> gridGet w h g (fst p) (snd p) = Some CHR ''.'')
          (concat (map (\<lambda>cy. map (\<lambda>cx. (cx, cy)) [1..w div 2 - 1]) rowsToScan))"

definition placePowerPellets :: "int \<Rightarrow> int \<Rightarrow> GhostBox \<Rightarrow> Cells \<Rightarrow> Cells" where
  "placePowerPellets w h b g =
     (let g1 = (case firstPellet w h g b [2..min (h - 2) 8 - 1] of
                  None \<Rightarrow> g
                | Some p \<Rightarrow> placeMirrored w h (fst p) (snd p) g)
      in case firstPellet w h g1 b (rev [max 1 (h - 9) + 1..h - 3]) of
           None \<Rightarrow> g1
         | Some p \<Rightarrow> placeMirrored w h (fst p) (snd p) g1)"

definition fillPelletsOutsideGhostBox :: "int \<Rightarrow> int \<Rightarrow> GhostBox \<Rightarrow> Cells \<Rightarrow> Cells" where
  "fillPelletsOutsideGhostBox w h b =
     fold (\<lambda>cy. fold (\<lambda>cx g.
            if inGhostBox b cx cy then g
            else if gridGet w h g cx cy = Some CHR '' '' \<or> gridGet w h g cx cy = Some CHR ''.''
              then gridSet w h cx cy CHR ''.'' g
            else g)
          [1..w - 2]) [1..h - 2]"

text \<open>
  \<open>placeSpawns\<close>, the player: the first scan goes up the centre column below the ghost
  box; the two fallbacks run only while the chosen tile is a wall.
\<close>

definition playerSpawn :: "int \<Rightarrow> int \<Rightarrow> GhostBox \<Rightarrow> Cells \<Rightarrow> GridPos" where
  "playerSpawn w h b g =
     (let cx = w div 2;
          p0 = (case find (\<lambda>cy. case gridGet w h g cx cy of None \<Rightarrow> False | Some c \<Rightarrow> c \<noteq> CHR ''#'')
                          [1..max 2 (boxY0 b) - 1] of
                  None \<Rightarrow> (cx, 1)
                | Some cy \<Rightarrow> (cx, cy));
          p1 = (if gridGet w h g (fst p0) (snd p0) = Some CHR ''#''
                then (case find (\<lambda>p. \<not> (fst p \<le> 0 \<or> fst p \<ge> w - 1) \<and>
                                       gridGet w h g (fst p) (snd p) \<noteq> Some CHR ''#'')
                                (concat (map (\<lambda>cy. map (\<lambda>dx. (cx + dx, cy)) [-8..8])
                                             [1..min (h - 2) 8 - 1])) of
                        None \<Rightarrow> p0
                      | Some p \<Rightarrow> p)
                else p0)
      in if gridGet w h g (fst p1) (snd p1) = Some CHR ''#''
         then (case find (\<lambda>p. \<not> inGhostBox b (fst p) (snd p) \<and>
                                gridGet w h g (fst p) (snd p) \<noteq> Some CHR ''#'')
                         (innerPositions w h) of
                 None \<Rightarrow> p1
               | Some p \<Rightarrow> p)
         else p1)"

definition wantedGhosts :: "Difficulty \<Rightarrow> int" where
  "wantedGhosts difficulty = (if difficulty = Easy then 1 else if difficulty = Hard then 3 else 2)"

text \<open>The loop over the four ghost slots, with the counter \<open>placed\<close>.\<close>

fun placeGhosts :: "int \<Rightarrow> int \<Rightarrow> int \<Rightarrow> GridPos list \<Rightarrow> Cells \<times> int \<Rightarrow> Cells \<times> int" where
  "placeGhosts w h wanted [] st = st"
| "placeGhosts w h wanted (p # ps) st =
     (if snd st \<ge> wanted then st
      else if gridGet w h (fst st) (fst p) (snd p) = Some CHR ''#'' then placeGhosts w h wanted ps st
      else placeGhosts w h wanted ps (gridSet w h (fst p) (snd p) CHR ''G'' (fst st), snd st + 1))"

definition ghostSlots :: "GhostBox \<Rightarrow> GridPos list" where
  "ghostSlots b =
     (let gx = (boxX0 b + boxX1 b) div 2;
          gy = (boxY0 b + boxY1 b) div 2
      in [(gx - 1, gy), (gx, gy), (gx + 1, gy), (gx, gy - 1)])"

definition placeSpawns :: "int \<Rightarrow> int \<Rightarrow> Difficulty \<Rightarrow> GhostBox \<Rightarrow> Cells \<Rightarrow> Cells" where
  "placeSpawns w h difficulty b g =
     (let p = playerSpawn w h b g;
          g1 = gridSet w h (fst p) (snd p) CHR ''P'' g;
          gx = (boxX0 b + boxX1 b) div 2;
          gy = (boxY0 b + boxY1 b) div 2;
          st = placeGhosts w h (wantedGhosts difficulty) (ghostSlots b) (g1, 0)
      in if snd st = 0
         then (if gridGet w h (fst st) gx gy \<noteq> Some CHR ''#''
               then gridSet w h gx gy CHR ''G'' (fst st) else fst st)
         else fst st)"

subsection \<open>The generator\<close>

text \<open>
  \<open>generatePacRogueLevel\<close> from step 2 on. Step 1, \<open>generateTileGroups\<close>, chooses the
  shapes with floating-point weights and the stream of \<open>seededRng\<close>; its result is a matrix
  \<open>groupDefs\<close> of \<open>groupWidth\<close> columns of \<open>groupHeight\<close> shapes, and everything after it is
  a function of the difficulty, the size and that matrix. \<open>Math.floor((width / 3) * 0.5)\<close> is
  \<open>width div 6\<close> and \<open>Math.floor(height / 3)\<close> is \<open>height div 3\<close> on the clamped sizes. The
  optional sizes default to 22 and 31.
\<close>

definition beforeSpawns :: "int \<Rightarrow> int \<Rightarrow> Shape list list \<Rightarrow> Cells" where
  "beforeSpawns w h groupDefs =
     (let groupWidth = max 1 (w div 6);
          groupHeight = max 1 (h div 3);
          g1 = expandGroups w h groupDefs groupWidth groupHeight (\<lambda>p. CHR ''#'');
          g2 = mirrorLeftToRight w h g1;
          g3 = enforceBorderWalls w h g2;
          carved = carveGhostBox w h (g3, []);
          ghostSpace = snd carved;
          ghostBox = ghostBoxOf w h;
          g4 = addMissingPellets w h (fst carved);
          g5 = removeIncorrectTiles w h ghostSpace g4;
          g6 = connectLoop 80 w h ghostSpace g5;
          g7 = removeIncorrectTiles w h ghostSpace g6;
          g8 = placePowerPellets w h ghostBox g7
      in fillPelletsOutsideGhostBox w h ghostBox g8)"

definition generatedCells :: "Difficulty \<Rightarrow> int \<Rightarrow> int \<Rightarrow> Shape list list \<Rightarrow> Cells" where
  "generatedCells difficulty w h groupDefs =
     enforceBorderWalls w h (placeSpawns w h difficulty (ghostBoxOf w h) (beforeSpawns w h groupDefs))"

definition generatePacRogueGrid ::
  "Difficulty \<Rightarrow> int option \<Rightarrow> int option \<Rightarrow> Shape list list \<Rightarrow> string list" where
  "generatePacRogueGrid difficulty paramWidth paramHeight groupDefs =
     (let w = clampInt (case paramWidth of None \<Rightarrow> 22 | Some v \<Rightarrow> v) 15 41;
          h = clampInt (case paramHeight of None \<Rightarrow> 31 | Some v \<Rightarrow> v) 15 45
      in gridRows w h (generatedCells difficulty w h groupDefs))"

section \<open>Wrap-around move legality\<close>

lemma nextTileWithWrap_inBounds:
  assumes "inBounds L tx ty" and "nextTileWithWrap L tx ty dir = Some (nx, ny)"
  shows "inBounds L nx ny"
  using assms
  by (cases dir)
     (auto simp: nextTileWithWrap_def getWrapDestination_def inBounds_def Let_def
           split: if_splits option.splits)

text \<open>
  C7. For a tile \<open>(tx, ty)\<close> of the grid and a direction other than \<open>None\<close>: when the
  neighbouring position is inside the grid, \<open>nextTileWithWrap\<close> returns it exactly when
  that tile is walkable, and \<open>getWrapDestination\<close> returns null (the move is no wrap);
  when the neighbouring position is outside the grid, both functions return the mirrored
  tile on the opposite edge exactly when the source tile and the mirrored tile are both
  walkable, and null otherwise. The direction \<open>None\<close> never moves.
\<close>

theorem wrap_move_legality:
  assumes "inBounds L tx ty"
  shows "(dir = DirNone \<longrightarrow>
            getWrapDestination L tx ty dir = None \<and> nextTileWithWrap L tx ty dir = None) \<and>
         (dir \<noteq> DirNone \<and> inBounds L (tx + fst (vec dir)) (ty + snd (vec dir)) \<longrightarrow>
            getWrapDestination L tx ty dir = None \<and>
            nextTileWithWrap L tx ty dir =
              (if isWalkable (tileAt L (tx + fst (vec dir)) (ty + snd (vec dir)))
               then Some (tx + fst (vec dir), ty + snd (vec dir)) else None)) \<and>
         (dir \<noteq> DirNone \<and> \<not> inBounds L (tx + fst (vec dir)) (ty + snd (vec dir)) \<longrightarrow>
            getWrapDestination L tx ty dir =
              (if isWalkable (tileAt L tx ty) \<and>
                  isWalkable (tileAt L (fst (mirrorTile L tx ty dir)) (snd (mirrorTile L tx ty dir)))
               then Some (mirrorTile L tx ty dir) else None) \<and>
            nextTileWithWrap L tx ty dir = getWrapDestination L tx ty dir)"
  using assms
  by (cases dir)
     (auto simp: nextTileWithWrap_def getWrapDestination_def inBounds_def Let_def
           split: option.splits)

theorem wrap_move_legality_witness:
  "inBounds ringLevel 0 2 \<and> \<not> inBounds ringLevel (0 + fst (vec DirLeft)) (2 + snd (vec DirLeft)) \<and>
   getWrapDestination ringLevel 0 2 DirLeft = Some (4, 2) \<and>
   nextTileWithWrap ringLevel 0 2 DirLeft = Some (4, 2) \<and>
   inBounds ringLevel (0 + fst (vec DirUp)) (2 + snd (vec DirUp)) \<and>
   getWrapDestination ringLevel 0 2 DirUp = None \<and>
   nextTileWithWrap ringLevel 0 2 DirUp = None"
proof -
  have b: "inBounds ringLevel 0 2"
    by (simp add: inBounds_def ringLevel_def testLevel_def)
  have t: "tileAt ringLevel 0 2 = Pellet" "tileAt ringLevel 4 2 = Pellet" "tileAt ringLevel 0 1 = Wall"
    by (simp_all add: tileAt_def ringLevel_def testLevel_def)
  have d: "width ringLevel = 5" "height ringLevel = 5"
    by (simp_all add: ringLevel_def testLevel_def)
  show ?thesis
    using wrap_move_legality[OF b, of DirLeft] wrap_move_legality[OF b, of DirUp] b t d
    by (simp add: inBounds_def isWalkable_def)
qed

section \<open>The shift: swaps, candidates and the loop invariant\<close>

lemma wf_level_row:
  "wf_level L \<Longrightarrow> inBounds L tx ty \<Longrightarrow>
     nat ty < length (tileMatrix L) \<and> nat tx < length (tileMatrix L ! nat ty)"
  by (auto simp: wf_level_def inBounds_def list_all_length)

lemma setTile_dims [simp]:
  "width (setTile L p t) = width L" "height (setTile L p t) = height L"
  by (simp_all add: setTile_def)

lemma wf_setTile: "wf_level L \<Longrightarrow> wf_level (setTile L p t)"
proof (cases "nat (snd p) < length (tileMatrix L)")
  case True
  assume "wf_level L"
  with True show ?thesis
    by (auto simp: wf_level_def setTile_def list_all_length nth_list_update)
next
  case False
  then have "(tileMatrix L)[nat (snd p) := (tileMatrix L ! nat (snd p))[nat (fst p) := t]] = tileMatrix L"
    by (simp add: list_update_beyond)
  moreover assume "wf_level L"
  ultimately show ?thesis
    by (simp add: wf_level_def setTile_def)
qed

lemma inBounds_setTile [simp]: "inBounds (setTile L p t) tx ty = inBounds L tx ty"
  by (simp add: inBounds_def)

lemma tileAt_setTile:
  assumes "wf_level L" and "inBounds L (fst p) (snd p)" and "inBounds L tx ty"
  shows "tileAt (setTile L p t) tx ty = (if (tx, ty) = p then t else tileAt L tx ty)"
proof -
  from assms have "nat (snd p) < length (tileMatrix L)" "nat (fst p) < length (tileMatrix L ! nat (snd p))"
    "nat ty < length (tileMatrix L)" "nat tx < length (tileMatrix L ! nat ty)"
    using wf_level_row by blast+
  moreover from assms have "(tx, ty) = p \<longleftrightarrow> nat tx = nat (fst p) \<and> nat ty = nat (snd p)"
    by (cases p) (auto simp: inBounds_def)
  ultimately show ?thesis
    by (auto simp: tileAt_def setTile_def nth_list_update)
qed

lemma swapTiles_dims [simp]:
  "width (swapTiles L a b) = width L" "height (swapTiles L a b) = height L"
  by (simp_all add: swapTiles_def Let_def)

lemma wf_swapTiles: "wf_level L \<Longrightarrow> wf_level (swapTiles L a b)"
  by (simp add: swapTiles_def Let_def wf_setTile)

lemma inBounds_swapTiles [simp]: "inBounds (swapTiles L a b) tx ty = inBounds L tx ty"
  by (simp add: inBounds_def)

lemma tileAt_swapTiles:
  assumes "wf_level L" and "inBounds L (fst a) (snd a)" and "inBounds L (fst b) (snd b)"
    and "inBounds L tx ty"
  shows "tileAt (swapTiles L a b) tx ty =
           (if (tx, ty) = b then tileAt L (fst a) (snd a)
            else if (tx, ty) = a then tileAt L (fst b) (snd b)
            else tileAt L tx ty)"
  using assms by (simp add: swapTiles_def Let_def tileAt_setTile wf_setTile)

lemma matrix_eqI:
  assumes "wf_level L" and "wf_level L'" and "width L' = width L" and "height L' = height L"
    and "\<And>tx ty. inBounds L tx ty \<Longrightarrow> tileAt L' tx ty = tileAt L tx ty"
  shows "tileMatrix L' = tileMatrix L"
proof (rule nth_equalityI)
  show "length (tileMatrix L') = length (tileMatrix L)"
    using assms by (simp add: wf_level_def)
next
  fix i assume i: "i < length (tileMatrix L')"
  then have ih: "int i < height L" using assms by (simp add: wf_level_def)
  show "tileMatrix L' ! i = tileMatrix L ! i"
  proof (rule nth_equalityI)
    show "length (tileMatrix L' ! i) = length (tileMatrix L ! i)"
      using assms i by (simp add: wf_level_def list_all_length)
  next
    fix j assume "j < length (tileMatrix L' ! i)"
    then have "int j < width L" using assms i by (simp add: wf_level_def list_all_length)
    then have "inBounds L (int j) (int i)" using ih by (simp add: inBounds_def)
    from assms(5)[OF this] show "tileMatrix L' ! i ! j = tileMatrix L ! i ! j"
      by (simp add: tileAt_def)
  qed
qed

lemma swapTiles_other_fields: "swapTiles L a b = L\<lparr>tileMatrix := tileMatrix (swapTiles L a b)\<rparr>"
  by (simp add: swapTiles_def setTile_def Let_def)

lemma swapTiles_involution:
  assumes "wf_level L" and "inBounds L (fst a) (snd a)" and "inBounds L (fst b) (snd b)"
  shows "swapTiles (swapTiles L a b) a b = L"
proof -
  let ?L1 = "swapTiles L a b" and ?L2 = "swapTiles (swapTiles L a b) a b"
  have wf1: "wf_level ?L1" and wf2: "wf_level ?L2"
    using assms(1) by (simp_all add: wf_swapTiles)
  have "tileMatrix ?L2 = tileMatrix L"
  proof (rule matrix_eqI[OF assms(1) wf2])
    fix tx ty assume q: "inBounds L tx ty"
    show "tileAt ?L2 tx ty = tileAt L tx ty"
      using assms q wf1 by (cases a; cases b) (auto simp: tileAt_swapTiles)
  qed simp_all
  moreover have "?L2 = L\<lparr>tileMatrix := tileMatrix ?L2\<rparr>"
    by (simp add: swapTiles_def setTile_def Let_def)
  ultimately show ?thesis by simp
qed

lemma mset_concat_update:
  assumes "i < length m" and "j < length (m ! i)"
  shows "mset (concat (m[i := (m ! i)[j := t]])) + {#m ! i ! j#} = mset (concat m) + {#t#}"
proof -
  have r: "mset ((m ! i)[j := t]) + {#m ! i ! j#} = mset (m ! i) + {#t#}"
    using assms(2) by (simp add: mset_update)
  have m: "m = take i m @ (m ! i) # drop (Suc i) m"
    using assms(1) by (rule id_take_nth_drop)
  have u: "m[i := (m ! i)[j := t]] = take i m @ ((m ! i)[j := t]) # drop (Suc i) m"
    using assms(1) by (rule upd_conv_take_nth_drop)
  have "mset (concat (m[i := (m ! i)[j := t]])) + {#m ! i ! j#}
          = mset (concat (take i m)) + (mset ((m ! i)[j := t]) + {#m ! i ! j#})
            + mset (concat (drop (Suc i) m))"
    by (subst u) simp
  also have "\<dots> = mset (concat (take i m)) + (mset (m ! i) + {#t#}) + mset (concat (drop (Suc i) m))"
    by (simp only: r)
  also have "\<dots> = mset (concat (take i m @ (m ! i) # drop (Suc i) m)) + {#t#}"
    by simp
  finally show ?thesis using m by simp
qed

lemma mset_setTile:
  assumes "wf_level L" and "inBounds L (fst p) (snd p)"
  shows "mset (concat (tileMatrix (setTile L p t))) + {#tileAt L (fst p) (snd p)#}
           = mset (concat (tileMatrix L)) + {#t#}"
proof -
  from wf_level_row[OF assms]
  have "nat (snd p) < length (tileMatrix L)" "nat (fst p) < length (tileMatrix L ! nat (snd p))"
    by simp_all
  from mset_concat_update[OF this, of t] show ?thesis
    by (simp add: setTile_def tileAt_def)
qed

lemma mset_swapTiles:
  assumes "wf_level L" and "inBounds L (fst a) (snd a)" and "inBounds L (fst b) (snd b)"
  shows "mset (concat (tileMatrix (swapTiles L a b))) = mset (concat (tileMatrix L))"
proof -
  let ?tA = "tileAt L (fst a) (snd a)" and ?tB = "tileAt L (fst b) (snd b)"
  let ?L1 = "setTile L a ?tB"
  have 1: "mset (concat (tileMatrix ?L1)) + {#?tA#} = mset (concat (tileMatrix L)) + {#?tB#}"
    by (rule mset_setTile[OF assms(1,2)])
  have b1: "tileAt ?L1 (fst b) (snd b) = ?tB"
    using assms by (simp add: tileAt_setTile)
  have "mset (concat (tileMatrix (setTile ?L1 b ?tA))) + {#tileAt ?L1 (fst b) (snd b)#}
          = mset (concat (tileMatrix ?L1)) + {#?tA#}"
    by (rule mset_setTile) (simp_all add: wf_setTile assms)
  with 1 b1 have "mset (concat (tileMatrix (setTile ?L1 b ?tA))) + {#?tB#}
          = mset (concat (tileMatrix L)) + {#?tB#}" by simp
  then show ?thesis by (simp add: swapTiles_def Let_def)
qed

lemma candidate_props:
  assumes "(a, b) \<in> set (collectAdjacentSwapCandidates L pmask used)"
  shows "inBounds L (fst a) (snd a) \<and> inBounds L (fst b) (snd b) \<and>
         \<not> hasProtected pmask (fst a) (snd a) \<and> \<not> hasProtected pmask (fst b) (snd b)"
proof -
  from assms obtain cx cy where c: "0 \<le> cy" "cy \<le> height L - 1" "0 \<le> cx" "cx \<le> width L - 1"
    and m: "(a, b) \<in> set (candidatesAt L pmask used cx cy)"
    by (auto simp: collectAdjacentSwapCandidates_def)
  from m obtain d where d: "d = (1, 0) \<or> d = (0, 1)"
    and p: "\<not> hasProtected pmask cx cy"
    and t: "(a, b) \<in> set (candidateTowards L pmask used cx cy d)"
    by (auto simp: candidatesAt_def split: if_splits)
  from t have "a = (cx, cy)" "b = (cx + fst d, cy + snd d)"
    "\<not> (cx + fst d < 0 \<or> cy + snd d < 0 \<or> cx + fst d \<ge> width L \<or> cy + snd d \<ge> height L)"
    "\<not> hasProtected pmask (cx + fst d) (cy + snd d)"
    by (auto simp: candidateTowards_def Let_def split: if_splits)
  with c p show ?thesis by (auto simp: inBounds_def)
qed

lemma tryMutation_outcome:
  assumes "wf_level L"
  shows "case tryMutation nxt k L r pmask used starts critical ms of
           AttemptThrew L' r' \<Rightarrow> L' = L
         | NotApplied L' r' \<Rightarrow> L' = L
         | Applied L' r' a b \<Rightarrow>
             L' = swapTiles L a b \<and> (a, b) \<in> set (collectAdjacentSwapCandidates L pmask used) \<and>
             passesChecks L' starts critical ms"
proof (induction k arbitrary: r)
  case 0
  show ?case by simp
next
  case (Suc k)
  define cands where "cands = collectAdjacentSwapCandidates L pmask used"
  define i where "i = fst (nxt r 0 (int (length cands)))"
  define r' where "r' = snd (nxt r 0 (int (length cands)))"
  define a where "a = fst (cands ! nat i)"
  define b where "b = snd (cands ! nat i)"
  show ?case
  proof (cases "cands = []")
    case True
    then show ?thesis by (simp add: cands_def[symmetric])
  next
    case ne: False
    show ?thesis
    proof (cases "i < 0 \<or> i \<ge> int (length cands)")
      case True
      then show ?thesis using ne
        by (simp add: cands_def[symmetric] i_def[symmetric] r'_def[symmetric] Let_def)
    next
      case False
      then have "nat i < length cands" by linarith
      then have "cands ! nat i \<in> set cands" by (rule nth_mem)
      then have mem: "(a, b) \<in> set cands" by (simp add: a_def b_def)
      then have ib: "inBounds L (fst a) (snd a)" "inBounds L (fst b) (snd b)"
        using candidate_props unfolding cands_def by blast+
      have inv: "swapTiles (swapTiles L a b) a b = L"
        by (rule swapTiles_involution[OF assms ib])
      show ?thesis
        using ne False mem inv Suc.IH[of r']
        by (simp add: cands_def[symmetric] i_def[symmetric] r'_def[symmetric] Let_def
              a_def[symmetric] b_def[symmetric])
    qed
  qed
qed

lemma revertAccepted_snoc:
  "revertAccepted L (accepted @ [(a, b)]) = revertAccepted (swapTiles L a b) accepted"
  by (simp add: revertAccepted_def)

lemma wf_revertAccepted: "wf_level L \<Longrightarrow> wf_level (revertAccepted L accepted)"
  by (induction accepted arbitrary: L rule: rev_induct)
     (simp_all add: revertAccepted_def wf_swapTiles)

lemma shiftLoop_Returned:
  assumes "wf_level L" and "revertAccepted L accepted = L0"
    and "mset (concat (tileMatrix L)) = mset (concat (tileMatrix L0))"
    and "protectedKept pmask L0 L"
    and "width L = width L0" and "height L = height L0"
    and "shiftLoop nxt n cfg pmask starts critical L r used accepted keys = Returned okv mt L' r'"
  shows "mset (concat (tileMatrix L')) = mset (concat (tileMatrix L0)) \<and>
         protectedKept pmask L0 L' \<and> wf_level L' \<and>
         width L' = width L0 \<and> height L' = height L0 \<and>
         (\<not> okv \<longrightarrow> L' = L0 \<and> mt = []) \<and>
         (okv \<longrightarrow> (if n = 0 then L' = L else passesChecks L' starts critical (softlockMaxSteps cfg)))"
  using assms
proof (induction n arbitrary: L r used accepted keys)
  case 0
  then show ?case by simp
next
  case (Suc n)
  let ?att = "tryMutation nxt (nat (maxTriesPerMutation cfg)) L r pmask used starts critical
                (softlockMaxSteps cfg)"
  note out = tryMutation_outcome[OF Suc.prems(1), where nxt = nxt and k = "nat (maxTriesPerMutation cfg)"
                and r = r and pmask = pmask and used = used and starts = starts
                and critical = critical and ms = "softlockMaxSteps cfg"]
  show ?case
  proof (cases ?att)
    case (AttemptThrew L1 r1)
    with Suc.prems(7) show ?thesis by simp
  next
    case (NotApplied L1 r1)
    with out have "L1 = L" by simp
    moreover have "wf_level (revertAccepted L accepted)"
      by (rule wf_revertAccepted[OF Suc.prems(1)])
    ultimately show ?thesis using NotApplied Suc.prems
      by (auto simp: protectedKept_def)
  next
    case (Applied L1 r1 a b)
    have all3: "L1 = swapTiles L a b \<and>
        (a, b) \<in> set (collectAdjacentSwapCandidates L pmask used) \<and>
        passesChecks L1 starts critical (softlockMaxSteps cfg)"
      using out unfolding Applied AttemptOutcome.case by blast
    from all3 have L1: "L1 = swapTiles L a b" by (rule conjunct1)
    from all3 have mem: "(a, b) \<in> set (collectAdjacentSwapCandidates L pmask used)" by blast
    from all3 have pc: "passesChecks L1 starts critical (softlockMaxSteps cfg)" by blast
    from candidate_props[OF mem]
    have ib: "inBounds L (fst a) (snd a)" "inBounds L (fst b) (snd b)"
      and np: "\<not> hasProtected pmask (fst a) (snd a)" "\<not> hasProtected pmask (fst b) (snd b)"
      by simp_all
    have wf1: "wf_level L1" using Suc.prems(1) L1 by (simp add: wf_swapTiles)
    have rv: "revertAccepted L1 (accepted @ [(a, b)]) = L0"
      using Suc.prems(2) swapTiles_involution[OF Suc.prems(1) ib]
      by (simp add: revertAccepted_snoc L1)
    have ms: "mset (concat (tileMatrix L1)) = mset (concat (tileMatrix L0))"
      using mset_swapTiles[OF Suc.prems(1) ib] Suc.prems(3) by (simp add: L1)
    have pk: "protectedKept pmask L0 L1"
      unfolding protectedKept_def
    proof (intro allI impI)
      fix tx ty assume q: "inBounds L0 tx ty \<and> hasProtected pmask tx ty"
      then have qb: "inBounds L tx ty" using Suc.prems(5,6) by (simp add: inBounds_def)
      from q np have "(tx, ty) \<noteq> a" "(tx, ty) \<noteq> b" by auto
      then have "tileAt L1 tx ty = tileAt L tx ty"
        using tileAt_swapTiles[OF Suc.prems(1) ib qb] by (simp add: L1)
      with q Suc.prems(4) show "tileAt L1 tx ty = tileAt L0 tx ty"
        by (simp add: protectedKept_def)
    qed
    have dims: "width L1 = width L0" "height L1 = height L0"
      using Suc.prems(5,6) by (simp_all add: L1)
    have run: "shiftLoop nxt n cfg pmask starts critical L1 r1 (addKey b (addKey a used))
                 (accepted @ [(a, b)]) (addKey b (addKey a keys)) = Returned okv mt L' r'"
      using Suc.prems(7) Applied by simp
    from Suc.IH[OF wf1 rv ms pk dims run] pc show ?thesis
      by (auto split: if_splits)
  qed
qed

lemma shiftLoop_Threw:
  assumes "wf_level L"
    and "mset (concat (tileMatrix L)) = mset (concat (tileMatrix L0))"
    and "shiftLoop nxt n cfg pmask starts critical L r used accepted keys = Threw L' r'"
  shows "mset (concat (tileMatrix L')) = mset (concat (tileMatrix L0))"
  using assms
proof (induction n arbitrary: L r used accepted keys)
  case 0
  then show ?case by simp
next
  case (Suc n)
  note out = tryMutation_outcome[OF Suc.prems(1), where nxt = nxt and k = "nat (maxTriesPerMutation cfg)"
                and r = r and pmask = pmask and used = used and starts = starts
                and critical = critical and ms = "softlockMaxSteps cfg"]
  show ?case
  proof (cases "tryMutation nxt (nat (maxTriesPerMutation cfg)) L r pmask used starts critical
                (softlockMaxSteps cfg)")
    case (AttemptThrew L1 r1)
    with out Suc.prems show ?thesis by simp
  next
    case (NotApplied L1 r1)
    with Suc.prems(3) show ?thesis by simp
  next
    case (Applied L1 r1 a b)
    have both: "L1 = swapTiles L a b \<and>
        (a, b) \<in> set (collectAdjacentSwapCandidates L pmask used)"
      using out unfolding Applied by (simp only: AttemptOutcome.case)
    from both have L1: "L1 = swapTiles L a b" by (rule conjunct1)
    from both have mem: "(a, b) \<in> set (collectAdjacentSwapCandidates L pmask used)" by blast
    from candidate_props[OF mem]
    have ib: "inBounds L (fst a) (snd a)" "inBounds L (fst b) (snd b)" by simp_all
    have wf1: "wf_level L1" using Suc.prems(1) L1 by (simp add: wf_swapTiles)
    have ms: "mset (concat (tileMatrix L1)) = mset (concat (tileMatrix L0))"
      using mset_swapTiles[OF Suc.prems(1) ib] Suc.prems(2) by (simp add: L1)
    have run: "shiftLoop nxt n cfg pmask starts critical L1 r1 (addKey b (addKey a used))
                 (accepted @ [(a, b)]) (addKey b (addKey a keys)) = Threw L' r'"
      using Suc.prems(3) Applied by simp
    from Suc.IH[OF wf1 ms run] show ?thesis .
  qed
qed

section \<open>Claims about the shift\<close>

text \<open>
  C1. Mutation atomicity: on a well-formed level, whatever the generator, the
  configuration, the mask and the two position lists are, a call of \<open>applyReorgShift\<close>
  that returns \<open>ok: false\<close> leaves the level as it was before the call (every
  provisional swap has been reverted), and the returned \<open>mutatedTiles\<close> is empty.
\<close>

theorem applyReorgShift_atomic:
  assumes "wf_level L"
    and "applyReorgShift nxt L r cfg pmask starts critical = Returned False mt L' r'"
  shows "tileMatrix L' = tileMatrix L \<and> L' = L \<and> mt = []"
proof -
  have "revertAccepted L [] = L" by (simp add: revertAccepted_def)
  moreover have "protectedKept pmask L L" by (simp add: protectedKept_def)
  ultimately show ?thesis
    using shiftLoop_Returned[OF assms(1), of "[]" L pmask nxt "nat (mutations cfg)" cfg starts critical
            r "[]" "[]" False mt L' r'] assms(2)
    by (simp add: applyReorgShift_def)
qed

theorem applyReorgShift_atomic_witness:
  "wf_level ringLevel \<and>
   applyReorgShift nextInt ringLevel (createRng (codeUnits ''abc'')) (cfgOf 3 1 20) [] [(2, 2)] []
     = Returned False [] ringLevel 2992635725"
proof -
  have w: "wf_level ringLevel" by code_simp
  have e: "applyReorgShift nextInt ringLevel (createRng (codeUnits ''abc'')) (cfgOf 3 1 20) []
             [(2, 2)] []
           = Returned False []
               (testLevel 5 5
                 [[Wall, Wall, Wall, Wall, Wall],
                  [Wall, Pellet, Pellet, Pellet, Wall],
                  [Pellet, Pellet, PlayerStart, Pellet, Pellet],
                  [Wall, Pellet, Pellet, Pellet, Wall],
                  [Wall, Wall, Wall, Wall, Wall]])
               2992635725"
    by code_simp
  from applyReorgShift_atomic[OF w e] w e show ?thesis by simp
qed

lemma passesChecks_fairGrid:
  assumes "passesChecks L starts critical maxSteps"
  shows "fairGrid L starts critical maxSteps"
proof -
  let ?v = "reachableFromStart L (hd starts)"
  from assms have ne: "starts \<noteq> []"
    by (auto simp: passesChecks_def split: if_splits)
  from assms ne have all4:
    "(\<forall>cy \<in> set [0..height L - 1]. \<forall>cx \<in> set [0..width L - 1].
        (tileAt L cx cy = Pellet \<or> tileAt L cx cy = Power) \<longrightarrow> visitedAt ?v (cx, cy)) \<and>
     (\<forall>s \<in> set starts.
        \<not> outOfGrid L s \<and> isWalkable (tileAt L (fst s) (snd s)) \<and> visitedAt ?v s) \<and>
     (\<forall>pos \<in> set critical.
        outOfGrid L pos \<or> (isWalkable (tileAt L (fst pos) (snd pos)) \<and> visitedAt ?v pos)) \<and>
     (\<forall>s \<in> set starts.
        outOfGrid L s \<or>
        (isWalkable (tileAt L (fst s) (snd s)) \<and> neighborCount L (fst s) (snd s) \<noteq> 0 \<and>
         (neighborCount L (fst s) (snd s) \<ge> 2 \<or> hasNearbyBranch L s maxSteps)))"
    unfolding passesChecks_def Let_def list_all_iff
    by (simp split: if_splits)
  from all4 have p1: "\<forall>cy \<in> set [0..height L - 1]. \<forall>cx \<in> set [0..width L - 1].
        (tileAt L cx cy = Pellet \<or> tileAt L cx cy = Power) \<longrightarrow> visitedAt ?v (cx, cy)"
    by (rule conjunct1)
  from all4 have p2: "\<forall>s \<in> set starts.
        \<not> outOfGrid L s \<and> isWalkable (tileAt L (fst s) (snd s)) \<and> visitedAt ?v s"
    by blast
  from all4 have p3: "\<forall>pos \<in> set critical.
        outOfGrid L pos \<or> (isWalkable (tileAt L (fst pos) (snd pos)) \<and> visitedAt ?v pos)"
    by blast
  from all4 have p4: "\<forall>s \<in> set starts.
        outOfGrid L s \<or>
        (isWalkable (tileAt L (fst s) (snd s)) \<and> neighborCount L (fst s) (snd s) \<noteq> 0 \<and>
         (neighborCount L (fst s) (snd s) \<ge> 2 \<or> hasNearbyBranch L s maxSteps))"
    by blast
  have g1: "\<forall>cx cy. inBounds L cx cy \<and> (tileAt L cx cy = Pellet \<or> tileAt L cx cy = Power) \<longrightarrow>
              visitedAt ?v (cx, cy)"
  proof (intro allI impI)
    fix cx cy assume h: "inBounds L cx cy \<and> (tileAt L cx cy = Pellet \<or> tileAt L cx cy = Power)"
    then have "cy \<in> set [0..height L - 1]" "cx \<in> set [0..width L - 1]"
      by (auto simp: inBounds_def)
    with p1 h show "visitedAt ?v (cx, cy)" by blast
  qed
  have g2: "\<forall>s \<in> set starts. inBounds L (fst s) (snd s) \<and> isWalkable (tileAt L (fst s) (snd s)) \<and>
              visitedAt ?v s"
    using p2 by (auto simp: outOfGrid_def inBounds_def)
  have g3: "\<forall>c \<in> set critical. inBounds L (fst c) (snd c) \<longrightarrow>
              isWalkable (tileAt L (fst c) (snd c)) \<and> visitedAt ?v c"
    using p3 by (auto simp: outOfGrid_def inBounds_def)
  have g4: "\<forall>s \<in> set starts. neighborCount L (fst s) (snd s) \<ge> 1 \<and>
              (neighborCount L (fst s) (snd s) = 1 \<longrightarrow> hasNearbyBranch L s maxSteps)"
  proof
    fix s assume s: "s \<in> set starts"
    with p2 have "\<not> outOfGrid L s" by blast
    with p4 s have d: "neighborCount L (fst s) (snd s) \<noteq> 0 \<and>
        (neighborCount L (fst s) (snd s) \<ge> 2 \<or> hasNearbyBranch L s maxSteps)"
      by blast
    moreover have "neighborCount L (fst s) (snd s) \<ge> 0" by (simp add: neighborCount_def)
    ultimately show "neighborCount L (fst s) (snd s) \<ge> 1 \<and>
        (neighborCount L (fst s) (snd s) = 1 \<longrightarrow> hasNearbyBranch L s maxSteps)"
      by auto
  qed
  from ne g1 g2 g3 g4 show ?thesis unfolding fairGrid_def by blast
qed

lemma applyReorgShift_Returned:
  assumes "wf_level L"
    and "applyReorgShift nxt L r cfg pmask starts critical = Returned okv mt L' r'"
  shows "mset (concat (tileMatrix L')) = mset (concat (tileMatrix L)) \<and>
         protectedKept pmask L L' \<and> wf_level L' \<and>
         width L' = width L \<and> height L' = height L \<and>
         (\<not> okv \<longrightarrow> L' = L \<and> mt = []) \<and>
         (okv \<longrightarrow> (if nat (mutations cfg) = 0 then L' = L
                  else passesChecks L' starts critical (softlockMaxSteps cfg)))"
proof -
  have "revertAccepted L [] = L" by (simp add: revertAccepted_def)
  moreover have "protectedKept pmask L L" by (simp add: protectedKept_def)
  ultimately show ?thesis
    using shiftLoop_Returned[OF assms(1), of "[]" L pmask nxt "nat (mutations cfg)" cfg starts critical
            r "[]" "[]" okv mt L' r'] assms(2)
    by (simp add: applyReorgShift_def)
qed

text \<open>
  C10. A shift preserves the multiset of tile values: on a well-formed level, whether the
  call returns \<open>ok: true\<close> or \<open>ok: false\<close>, the tiles of the level after the call are a
  rearrangement of the tiles before it, so every tile value (wall, pellet, power, empty,
  playerStart, ghostStart) occurs as often after the call as before.
\<close>

theorem applyReorgShift_tile_multiset:
  assumes "wf_level L"
    and "applyReorgShift nxt L r cfg pmask starts critical = Returned okv mt L' r'"
  shows "mset (concat (tileMatrix L')) = mset (concat (tileMatrix L)) \<and>
         (\<forall>t. count_list (concat (tileMatrix L')) t = count_list (concat (tileMatrix L)) t)"
proof -
  from applyReorgShift_Returned[OF assms]
  have m: "mset (concat (tileMatrix L')) = mset (concat (tileMatrix L))" by blast
  have "count_list (concat (tileMatrix L')) t = count_list (concat (tileMatrix L)) t" for t
    using m by (metis count_mset)
  with m show ?thesis by blast
qed

theorem applyReorgShift_tile_multiset_witness:
  "wf_level ringLevel \<and>
   applyReorgShift nextInt ringLevel (createRng (codeUnits ''abc'')) (cfgOf 1 50 20) [] [(2, 2)] []
     = Returned True [(3, 3), (4, 3)] shiftedRing 3624471395 \<and>
   tileMatrix shiftedRing \<noteq> tileMatrix ringLevel \<and>
   mset (concat (tileMatrix shiftedRing)) = mset (concat (tileMatrix ringLevel))"
proof -
  have w: "wf_level ringLevel" by code_simp
  have e: "applyReorgShift nextInt ringLevel (createRng (codeUnits ''abc'')) (cfgOf 1 50 20) []
             [(2, 2)] [] = Returned True [(3, 3), (4, 3)] shiftedRing 3624471395"
    by code_simp
  have d: "tileMatrix shiftedRing \<noteq> tileMatrix ringLevel"
    by (simp add: shiftedRing_def ringLevel_def testLevel_def)
  from applyReorgShift_tile_multiset[OF w e] w e d show ?thesis by blast
qed

text \<open>
  The same holds when the call throws because the generator drew a number that is no index
  of the candidate list.
\<close>

lemma applyReorgShift_Threw_multiset:
  assumes "wf_level L"
    and "applyReorgShift nxt L r cfg pmask starts critical = Threw L' r'"
  shows "mset (concat (tileMatrix L')) = mset (concat (tileMatrix L))"
  using shiftLoop_Threw[OF assms(1), of L nxt "nat (mutations cfg)" cfg pmask starts critical r
          "[]" "[]" "[]" L' r'] assms(2)
  by (simp add: applyReorgShift_def)

text \<open>
  C2. Fairness after a successful shift. As stated the claim fails: with \<open>mutations\<close> at
  most 0 the loop body never runs, no check is made, and the call returns \<open>ok: true\<close> on
  any grid. What holds: on a well-formed level, if the call returns \<open>ok: true\<close> and either
  \<open>mutations\<close> is at least 1 or the grid passed the checks before the call, then the grid
  left behind satisfies every fairness invariant of \<open>fairGrid\<close>.
\<close>

theorem applyReorgShift_fair:
  assumes "wf_level L"
    and "applyReorgShift nxt L r cfg pmask starts critical = Returned True mt L' r'"
    and "1 \<le> mutations cfg \<or> passesChecks L starts critical (softlockMaxSteps cfg)"
  shows "fairGrid L' starts critical (softlockMaxSteps cfg)"
proof -
  from applyReorgShift_Returned[OF assms(1,2)]
  have c: "if nat (mutations cfg) = 0 then L' = L
           else passesChecks L' starts critical (softlockMaxSteps cfg)" by blast
  have "passesChecks L' starts critical (softlockMaxSteps cfg)"
  proof (cases "1 \<le> mutations cfg")
    case True
    then have "nat (mutations cfg) \<noteq> 0" by simp
    with c show ?thesis by simp
  next
    case False
    then have "nat (mutations cfg) = 0" by simp
    with c have "L' = L" by simp
    with False assms(3) show ?thesis by simp
  qed
  then show ?thesis by (rule passesChecks_fairGrid)
qed

theorem applyReorgShift_fair_witness:
  "wf_level ringLevel \<and>
   applyReorgShift nextInt ringLevel (createRng (codeUnits ''abc'')) (cfgOf 2 3 20) [] [(2, 2)] [(4, 2)]
     = Returned True [(3, 3), (4, 3), (3, 1), (4, 1)]
         (testLevel 5 5
           [[Wall, Wall, Wall, Wall, Wall],
            [Wall, Pellet, Pellet, Wall, Pellet],
            [Pellet, Pellet, PlayerStart, Pellet, Pellet],
            [Wall, Pellet, Pellet, Wall, Pellet],
            [Wall, Wall, Wall, Wall, Wall]]) 1161069912 \<and>
   1 \<le> mutations (cfgOf 2 3 20) \<and>
   fairGrid (testLevel 5 5
           [[Wall, Wall, Wall, Wall, Wall],
            [Wall, Pellet, Pellet, Wall, Pellet],
            [Pellet, Pellet, PlayerStart, Pellet, Pellet],
            [Wall, Pellet, Pellet, Wall, Pellet],
            [Wall, Wall, Wall, Wall, Wall]]) [(2, 2)] [(4, 2)] (softlockMaxSteps (cfgOf 2 3 20))"
proof -
  have w: "wf_level ringLevel" by code_simp
  have e: "applyReorgShift nextInt ringLevel (createRng (codeUnits ''abc'')) (cfgOf 2 3 20) []
             [(2, 2)] [(4, 2)]
     = Returned True [(3, 3), (4, 3), (3, 1), (4, 1)]
         (testLevel 5 5
           [[Wall, Wall, Wall, Wall, Wall],
            [Wall, Pellet, Pellet, Wall, Pellet],
            [Pellet, Pellet, PlayerStart, Pellet, Pellet],
            [Wall, Pellet, Pellet, Wall, Pellet],
            [Wall, Wall, Wall, Wall, Wall]]) 1161069912"
    by code_simp
  have m: "1 \<le> mutations (cfgOf 2 3 20)" by (simp add: cfgOf_def)
  from applyReorgShift_fair[OF w e] m w e show ?thesis by blast
qed

theorem applyReorgShift_fair_counterexample:
  "applyReorgShift nextInt sealedLevel (createRng (codeUnits ''abc'')) (cfgOf 0 50 20) [] [(0, 0)] []
     = Returned True [] sealedLevel (createRng (codeUnits ''abc'')) \<and>
   tileAt sealedLevel 2 0 = Pellet \<and>
   \<not> visitedAt (reachableFromStart sealedLevel (hd [(0, 0)])) (2, 0) \<and>
   \<not> fairGrid sealedLevel [(0, 0)] [] (softlockMaxSteps (cfgOf 0 50 20))"
proof -
  have a: "applyReorgShift nextInt sealedLevel (createRng (codeUnits ''abc'')) (cfgOf 0 50 20) []
             [(0, 0)] [] = Returned True [] sealedLevel (createRng (codeUnits ''abc''))"
    by (simp add: applyReorgShift_def cfgOf_def)
  have t: "tileAt sealedLevel 2 0 = Pellet"
    by (simp add: tileAt_def sealedLevel_def testLevel_def)
  have v: "\<not> visitedAt (reachableFromStart sealedLevel (hd [(0, 0)])) (2, 0)"
    by code_simp
  have b: "inBounds sealedLevel 2 0"
    by (simp add: inBounds_def sealedLevel_def testLevel_def)
  have "\<not> fairGrid sealedLevel [(0, 0)] [] (softlockMaxSteps (cfgOf 0 50 20))"
    unfolding fairGrid_def using t v b by blast
  with a t v show ?thesis by blast
qed

section \<open>Complete error collection\<close>

lemma gridErrors_rowLength:
  assumes "0 \<le> cy" and "cy < int (length rows)"
    and "length (rows ! nat cy) \<noteq> length (hd rows)"
  shows "RowLengthMismatch cy (int (length (rows ! nat cy))) (int (length (hd rows)))
           \<in> set (gridErrors rows)"
proof -
  have "cy \<in> set [0..int (length rows) - 1]" using assms by simp
  moreover have "RowLengthMismatch cy (int (length (rows ! nat cy))) (int (length (hd rows)))
           \<in> set (rowErrors (int (length (hd rows))) cy (rows ! nat cy))"
    using assms(3) by (simp add: rowErrors_def)
  ultimately show ?thesis
    unfolding gridErrors_def Let_def by (auto simp del: set_upto)
qed

lemma gridErrors_invalidChar:
  assumes "0 \<le> cy" and "cy < int (length rows)"
    and "0 \<le> cx" and "cx < int (length (rows ! nat cy))"
    and "\<not> isLegendChar (rows ! nat cy ! nat cx)"
  shows "InvalidChar (rows ! nat cy ! nat cx) cx cy \<in> set (gridErrors rows)"
proof -
  have y: "cy \<in> set [0..int (length rows) - 1]" using assms by simp
  have x: "cx \<in> set [0..int (length (rows ! nat cy)) - 1]" using assms by simp
  have "InvalidChar (rows ! nat cy ! nat cx) cx cy
           \<in> set (rowErrors (int (length (hd rows))) cy (rows ! nat cy))"
    unfolding rowErrors_def using x assms(5) by (auto simp del: set_upto)
  with y show ?thesis
    unfolding gridErrors_def Let_def by (auto simp del: set_upto)
qed

lemma parseLevel_Inl:
  assumes "grid level \<noteq> []" and "parseLevel level = Inl errs"
  shows "errs = gridErrors (grid level)"
  using assms by (auto simp: parseLevel_def Let_def split: if_splits)

lemma borderRules_horizontal:
  assumes "3 \<le> w" and "3 \<le> h" and "0 \<le> cy" and "cy < h"
  shows "set (checkPair (charAt rows (0, cy)) 0 cy (charAt rows (w - 1, cy)) (w - 1) cy Horizontal)
           \<subseteq> set (borderRules rows w h)"
proof -
  have "cy \<in> set [0..h - 1]" using assms by simp
  then show ?thesis
    unfolding borderRules_def using assms(1,2) by (auto simp del: set_upto)
qed

lemma borderRules_vertical:
  assumes "3 \<le> w" and "3 \<le> h" and "0 \<le> cx" and "cx < w"
  shows "set (checkPair (charAt rows (cx, 0)) cx 0 (charAt rows (cx, h - 1)) cx (h - 1) Vertical)
           \<subseteq> set (borderRules rows w h)"
proof -
  have "cx \<in> set [0..w - 1]" using assms by simp
  then show ?thesis
    unfolding borderRules_def using assms(1,2) by (auto simp del: set_upto)
qed

lemma checkPair_complete:
  "((a = CHR ''#'') \<noteq> (b = CHR ''#'') \<longrightarrow>
      TunnelMismatch axis ax ay a bx by b \<in> set (checkPair a ax ay b bx by axis)) \<and>
   (a \<noteq> CHR ''#'' \<and> b \<noteq> CHR ''#'' \<and> \<not> isAllowedBorderTunnelChar a \<longrightarrow>
      InvalidTunnelTile ax ay a \<in> set (checkPair a ax ay b bx by axis)) \<and>
   (a \<noteq> CHR ''#'' \<and> b \<noteq> CHR ''#'' \<and> \<not> isAllowedBorderTunnelChar b \<longrightarrow>
      InvalidTunnelTile bx by b \<in> set (checkPair a ax ay b bx by axis))"
  by (auto simp: checkPair_def Let_def)

text \<open>
  \<open>pairViolations\<close> lists what is wrong with one border pair, in the words of the border
  and tunnel rule: one wall facing one tunnel tile, or a tunnel pair with a tile outside
  the tunnel-safe characters.
\<close>

lemma validateLevel_Inr:
  assumes "parseLevel level = Inr parsed"
  shows "errors (validateLevel level) =
           borderRules (rawGrid parsed) (width parsed) (height parsed) @
           (if playerStartCount parsed < 1 \<or> playerStartCount parsed > 2
            then [PlayerStartCount (playerStartCount parsed)] else []) @
           (if pelletCount parsed < 1 then [NoPellet] else []) @
           (if int (length (ghostStarts parsed)) < 1 then [NoGhostStart] else []) @
           (if length (playerStarts parsed) > 0 \<and> pelletCount parsed > 0
            then pelletsReachableFromStart parsed (playerStarts parsed) (pelletPositions parsed)
            else [])"
    and "ok (validateLevel level) \<longleftrightarrow> errors (validateLevel level) = []"
  using assms by (simp_all add: validateLevel_def Let_def)

text \<open>
  C8. Complete error collection. The part about \<open>parseLevel\<close> holds as stated: for a
  non-empty grid, the errors of a \<open>ParseError\<close> contain an entry for every row whose
  length is not the width and for every character outside the legend. The part about
  \<open>validateLevel\<close> fails as stated, because the validator returns only the parse errors
  when the level does not parse, only the size error when the grid is smaller than 3x3,
  and skips the reachability check when there is no player start or no \<open>'.'\<close> pellet.
  What holds: when the level parses, the errors contain an entry for a wrong number of
  player starts, for a missing pellet and for a missing ghost start; when moreover the grid
  is at least 3x3, an entry for every border pair of one wall and one tunnel tile and for
  every tile of a tunnel pair outside the tunnel-safe characters; when moreover there is a
  player start and a \<open>'.'\<close> pellet, an entry for every pellet or power position that the
  search from the player starts does not reach; and \<open>ok\<close> is true exactly when the list is
  empty.
\<close>

theorem error_collection_complete:
  "(grid level \<noteq> [] \<and> parseLevel level = Inl errs \<longrightarrow>
      (\<forall>cy. 0 \<le> cy \<and> cy < int (length (grid level)) \<and>
            length (grid level ! nat cy) \<noteq> length (hd (grid level)) \<longrightarrow>
            RowLengthMismatch cy (int (length (grid level ! nat cy))) (int (length (hd (grid level))))
              \<in> set errs) \<and>
      (\<forall>cx cy. 0 \<le> cy \<and> cy < int (length (grid level)) \<and>
            0 \<le> cx \<and> cx < int (length (grid level ! nat cy)) \<and>
            \<not> isLegendChar (grid level ! nat cy ! nat cx) \<longrightarrow>
            InvalidChar (grid level ! nat cy ! nat cx) cx cy \<in> set errs) \<and>
      validateLevel level = \<lparr> ok = False, errors = errs \<rparr>) \<and>
   (parseLevel level = Inr parsed \<longrightarrow>
      (ok (validateLevel level) \<longleftrightarrow> errors (validateLevel level) = []) \<and>
      (playerStartCount parsed < 1 \<or> playerStartCount parsed > 2 \<longrightarrow>
         PlayerStartCount (playerStartCount parsed) \<in> set (errors (validateLevel level))) \<and>
      (pelletCount parsed < 1 \<longrightarrow> NoPellet \<in> set (errors (validateLevel level))) \<and>
      (ghostStarts parsed = [] \<longrightarrow> NoGhostStart \<in> set (errors (validateLevel level))) \<and>
      (3 \<le> width parsed \<and> 3 \<le> height parsed \<longrightarrow>
         (\<forall>cy. 0 \<le> cy \<and> cy < height parsed \<longrightarrow>
            (let a = charAt (rawGrid parsed) (0, cy);
                 b = charAt (rawGrid parsed) (width parsed - 1, cy) in
             ((a = CHR ''#'') \<noteq> (b = CHR ''#'') \<longrightarrow>
                TunnelMismatch Horizontal 0 cy a (width parsed - 1) cy b
                  \<in> set (errors (validateLevel level))) \<and>
             (a \<noteq> CHR ''#'' \<and> b \<noteq> CHR ''#'' \<and> \<not> isAllowedBorderTunnelChar a \<longrightarrow>
                InvalidTunnelTile 0 cy a \<in> set (errors (validateLevel level))) \<and>
             (a \<noteq> CHR ''#'' \<and> b \<noteq> CHR ''#'' \<and> \<not> isAllowedBorderTunnelChar b \<longrightarrow>
                InvalidTunnelTile (width parsed - 1) cy b \<in> set (errors (validateLevel level))))) \<and>
         (\<forall>cx. 0 \<le> cx \<and> cx < width parsed \<longrightarrow>
            (let a = charAt (rawGrid parsed) (cx, 0);
                 b = charAt (rawGrid parsed) (cx, height parsed - 1) in
             ((a = CHR ''#'') \<noteq> (b = CHR ''#'') \<longrightarrow>
                TunnelMismatch Vertical cx 0 a cx (height parsed - 1) b
                  \<in> set (errors (validateLevel level))) \<and>
             (a \<noteq> CHR ''#'' \<and> b \<noteq> CHR ''#'' \<and> \<not> isAllowedBorderTunnelChar a \<longrightarrow>
                InvalidTunnelTile cx 0 a \<in> set (errors (validateLevel level))) \<and>
             (a \<noteq> CHR ''#'' \<and> b \<noteq> CHR ''#'' \<and> \<not> isAllowedBorderTunnelChar b \<longrightarrow>
                InvalidTunnelTile cx (height parsed - 1) b \<in> set (errors (validateLevel level)))))) \<and>
      (playerStarts parsed \<noteq> [] \<and> pelletCount parsed > 0 \<longrightarrow>
         (\<forall>p \<in> set (pelletPositions parsed).
            \<not> visitedAt (visitedFromStarts parsed (playerStarts parsed)) p \<longrightarrow>
            PelletNotReachable (fst p) (snd p) \<in> set (errors (validateLevel level)))))"
proof (intro conjI impI)
  assume h: "grid level \<noteq> [] \<and> parseLevel level = Inl errs"
  then have e: "errs = gridErrors (grid level)" using parseLevel_Inl by blast
  show "\<forall>cy. 0 \<le> cy \<and> cy < int (length (grid level)) \<and>
            length (grid level ! nat cy) \<noteq> length (hd (grid level)) \<longrightarrow>
            RowLengthMismatch cy (int (length (grid level ! nat cy))) (int (length (hd (grid level))))
              \<in> set errs"
    unfolding e using gridErrors_rowLength by blast
  show "\<forall>cx cy. 0 \<le> cy \<and> cy < int (length (grid level)) \<and>
            0 \<le> cx \<and> cx < int (length (grid level ! nat cy)) \<and>
            \<not> isLegendChar (grid level ! nat cy ! nat cx) \<longrightarrow>
            InvalidChar (grid level ! nat cy ! nat cx) cx cy \<in> set errs"
    unfolding e using gridErrors_invalidChar by blast
  show "validateLevel level = \<lparr> ok = False, errors = errs \<rparr>"
    using h by (simp add: validateLevel_def)
next
  assume p: "parseLevel level = Inr parsed"
  note E = validateLevel_Inr(1)[OF p]
  show "ok (validateLevel level) \<longleftrightarrow> errors (validateLevel level) = []"
    by (rule validateLevel_Inr(2)[OF p])
  show "PlayerStartCount (playerStartCount parsed) \<in> set (errors (validateLevel level))"
    if "playerStartCount parsed < 1 \<or> playerStartCount parsed > 2"
    using that by (simp add: E)
  show "NoPellet \<in> set (errors (validateLevel level))" if "pelletCount parsed < 1"
    using that by (simp add: E)
  show "NoGhostStart \<in> set (errors (validateLevel level))" if "ghostStarts parsed = []"
    using that by (simp add: E)
  show "\<forall>cy. 0 \<le> cy \<and> cy < height parsed \<longrightarrow>
            (let a = charAt (rawGrid parsed) (0, cy);
                 b = charAt (rawGrid parsed) (width parsed - 1, cy) in
             ((a = CHR ''#'') \<noteq> (b = CHR ''#'') \<longrightarrow>
                TunnelMismatch Horizontal 0 cy a (width parsed - 1) cy b
                  \<in> set (errors (validateLevel level))) \<and>
             (a \<noteq> CHR ''#'' \<and> b \<noteq> CHR ''#'' \<and> \<not> isAllowedBorderTunnelChar a \<longrightarrow>
                InvalidTunnelTile 0 cy a \<in> set (errors (validateLevel level))) \<and>
             (a \<noteq> CHR ''#'' \<and> b \<noteq> CHR ''#'' \<and> \<not> isAllowedBorderTunnelChar b \<longrightarrow>
                InvalidTunnelTile (width parsed - 1) cy b \<in> set (errors (validateLevel level))))"
    if s: "3 \<le> width parsed \<and> 3 \<le> height parsed"
  proof (intro allI impI)
    fix cy assume c: "0 \<le> cy \<and> cy < height parsed"
    have sub: "set (checkPair (charAt (rawGrid parsed) (0, cy)) 0 cy
                 (charAt (rawGrid parsed) (width parsed - 1, cy)) (width parsed - 1) cy Horizontal)
               \<subseteq> set (errors (validateLevel level))"
      using borderRules_horizontal[of "width parsed" "height parsed" cy "rawGrid parsed"] s c
      by (auto simp: E)
    show "let a = charAt (rawGrid parsed) (0, cy);
              b = charAt (rawGrid parsed) (width parsed - 1, cy) in
             ((a = CHR ''#'') \<noteq> (b = CHR ''#'') \<longrightarrow>
                TunnelMismatch Horizontal 0 cy a (width parsed - 1) cy b
                  \<in> set (errors (validateLevel level))) \<and>
             (a \<noteq> CHR ''#'' \<and> b \<noteq> CHR ''#'' \<and> \<not> isAllowedBorderTunnelChar a \<longrightarrow>
                InvalidTunnelTile 0 cy a \<in> set (errors (validateLevel level))) \<and>
             (a \<noteq> CHR ''#'' \<and> b \<noteq> CHR ''#'' \<and> \<not> isAllowedBorderTunnelChar b \<longrightarrow>
                InvalidTunnelTile (width parsed - 1) cy b \<in> set (errors (validateLevel level)))"
      unfolding Let_def
      using sub checkPair_complete[of "charAt (rawGrid parsed) (0, cy)"
                "charAt (rawGrid parsed) (width parsed - 1, cy)" Horizontal 0 cy "width parsed - 1" cy]
      by blast
  qed
  show "\<forall>cx. 0 \<le> cx \<and> cx < width parsed \<longrightarrow>
            (let a = charAt (rawGrid parsed) (cx, 0);
                 b = charAt (rawGrid parsed) (cx, height parsed - 1) in
             ((a = CHR ''#'') \<noteq> (b = CHR ''#'') \<longrightarrow>
                TunnelMismatch Vertical cx 0 a cx (height parsed - 1) b
                  \<in> set (errors (validateLevel level))) \<and>
             (a \<noteq> CHR ''#'' \<and> b \<noteq> CHR ''#'' \<and> \<not> isAllowedBorderTunnelChar a \<longrightarrow>
                InvalidTunnelTile cx 0 a \<in> set (errors (validateLevel level))) \<and>
             (a \<noteq> CHR ''#'' \<and> b \<noteq> CHR ''#'' \<and> \<not> isAllowedBorderTunnelChar b \<longrightarrow>
                InvalidTunnelTile cx (height parsed - 1) b \<in> set (errors (validateLevel level))))"
    if s: "3 \<le> width parsed \<and> 3 \<le> height parsed"
  proof (intro allI impI)
    fix cx assume c: "0 \<le> cx \<and> cx < width parsed"
    have sub: "set (checkPair (charAt (rawGrid parsed) (cx, 0)) cx 0
                 (charAt (rawGrid parsed) (cx, height parsed - 1)) cx (height parsed - 1) Vertical)
               \<subseteq> set (errors (validateLevel level))"
      using borderRules_vertical[of "width parsed" "height parsed" cx "rawGrid parsed"] s c
      by (auto simp: E)
    show "let a = charAt (rawGrid parsed) (cx, 0);
              b = charAt (rawGrid parsed) (cx, height parsed - 1) in
             ((a = CHR ''#'') \<noteq> (b = CHR ''#'') \<longrightarrow>
                TunnelMismatch Vertical cx 0 a cx (height parsed - 1) b
                  \<in> set (errors (validateLevel level))) \<and>
             (a \<noteq> CHR ''#'' \<and> b \<noteq> CHR ''#'' \<and> \<not> isAllowedBorderTunnelChar a \<longrightarrow>
                InvalidTunnelTile cx 0 a \<in> set (errors (validateLevel level))) \<and>
             (a \<noteq> CHR ''#'' \<and> b \<noteq> CHR ''#'' \<and> \<not> isAllowedBorderTunnelChar b \<longrightarrow>
                InvalidTunnelTile cx (height parsed - 1) b \<in> set (errors (validateLevel level)))"
      unfolding Let_def
      using sub checkPair_complete[of "charAt (rawGrid parsed) (cx, 0)"
                "charAt (rawGrid parsed) (cx, height parsed - 1)" Vertical cx 0 cx "height parsed - 1"]
      by blast
  qed
  show "\<forall>p \<in> set (pelletPositions parsed).
            \<not> visitedAt (visitedFromStarts parsed (playerStarts parsed)) p \<longrightarrow>
            PelletNotReachable (fst p) (snd p) \<in> set (errors (validateLevel level))"
    if "playerStarts parsed \<noteq> [] \<and> pelletCount parsed > 0"
    using that by (auto simp: E pelletsReachableFromStart_def Let_def)
qed

theorem error_collection_complete_witness:
  "grid brokenLevelJson \<noteq> [] \<and>
   parseLevel brokenLevelJson
     = Inl [InvalidChar CHR ''x'' 1 0, RowLengthMismatch 1 2 3, InvalidChar CHR ''?'' 1 2] \<and>
   validateLevel brokenLevelJson
     = \<lparr> ok = False,
         errors = [InvalidChar CHR ''x'' 1 0, RowLengthMismatch 1 2 3, InvalidChar CHR ''?'' 1 2] \<rparr> \<and>
   parseLevel crackedLevelJson = Inr crackedParsed \<and>
   3 \<le> width crackedParsed \<and> 3 \<le> height crackedParsed \<and>
   playerStarts crackedParsed \<noteq> [] \<and> pelletCount crackedParsed > 0 \<and>
   ghostStarts crackedParsed = [] \<and>
   \<not> visitedAt (visitedFromStarts crackedParsed (playerStarts crackedParsed)) (3, 1) \<and>
   NoGhostStart \<in> set (errors (validateLevel crackedLevelJson)) \<and>
   TunnelMismatch Horizontal 0 1 CHR ''#'' 4 1 CHR ''.'' \<in> set (errors (validateLevel crackedLevelJson)) \<and>
   PelletNotReachable 3 1 \<in> set (errors (validateLevel crackedLevelJson)) \<and>
   \<not> ok (validateLevel crackedLevelJson)"
proof -
  have g: "grid brokenLevelJson \<noteq> []" by (simp add: brokenLevelJson_def)
  have p1: "parseLevel brokenLevelJson
     = Inl [InvalidChar CHR ''x'' 1 0, RowLengthMismatch 1 2 3, InvalidChar CHR ''?'' 1 2]"
    by code_simp
  have p2: "parseLevel crackedLevelJson = Inr crackedParsed" by code_simp
  have d: "3 \<le> width crackedParsed \<and> 3 \<le> height crackedParsed \<and>
           playerStarts crackedParsed \<noteq> [] \<and> pelletCount crackedParsed > 0 \<and>
           ghostStarts crackedParsed = [] \<and> (3, 1) \<in> set (pelletPositions crackedParsed) \<and>
           charAt (rawGrid crackedParsed) (0, 1) = CHR ''#'' \<and>
           charAt (rawGrid crackedParsed) (width crackedParsed - 1, 1) = CHR ''.'' \<and>
           width crackedParsed - 1 = 4"
    by (simp add: crackedParsed_def charAt_def)
  have v: "\<not> visitedAt (visitedFromStarts crackedParsed (playerStarts crackedParsed)) (3, 1)"
    by code_simp
  note T1 = error_collection_complete[of brokenLevelJson
      "[InvalidChar CHR ''x'' 1 0, RowLengthMismatch 1 2 3, InvalidChar CHR ''?'' 1 2]" crackedParsed]
  note T2 = error_collection_complete[of crackedLevelJson "[]" crackedParsed]
  from T1 g p1 have a: "validateLevel brokenLevelJson
     = \<lparr> ok = False,
         errors = [InvalidChar CHR ''x'' 1 0, RowLengthMismatch 1 2 3, InvalidChar CHR ''?'' 1 2] \<rparr>"
    by blast
  from T2 p2 d have b1: "NoGhostStart \<in> set (errors (validateLevel crackedLevelJson))"
    by blast
  from T2 p2 d have "\<forall>cy. 0 \<le> cy \<and> cy < height crackedParsed \<longrightarrow>
            (let a = charAt (rawGrid crackedParsed) (0, cy);
                 b = charAt (rawGrid crackedParsed) (width crackedParsed - 1, cy) in
             ((a = CHR ''#'') \<noteq> (b = CHR ''#'') \<longrightarrow>
                TunnelMismatch Horizontal 0 cy a (width crackedParsed - 1) cy b
                  \<in> set (errors (validateLevel crackedLevelJson))) \<and>
             (a \<noteq> CHR ''#'' \<and> b \<noteq> CHR ''#'' \<and> \<not> isAllowedBorderTunnelChar a \<longrightarrow>
                InvalidTunnelTile 0 cy a \<in> set (errors (validateLevel crackedLevelJson))) \<and>
             (a \<noteq> CHR ''#'' \<and> b \<noteq> CHR ''#'' \<and> \<not> isAllowedBorderTunnelChar b \<longrightarrow>
                InvalidTunnelTile (width crackedParsed - 1) cy b
                  \<in> set (errors (validateLevel crackedLevelJson))))"
    by blast
  from this[rule_format, of 1] d
  have b2: "TunnelMismatch Horizontal 0 1 CHR ''#'' 4 1 CHR ''.''
              \<in> set (errors (validateLevel crackedLevelJson))"
    by (simp add: Let_def crackedParsed_def)
  from T2 p2 d have "\<forall>p \<in> set (pelletPositions crackedParsed).
            \<not> visitedAt (visitedFromStarts crackedParsed (playerStarts crackedParsed)) p \<longrightarrow>
            PelletNotReachable (fst p) (snd p) \<in> set (errors (validateLevel crackedLevelJson))"
    by blast
  with d v have b3: "PelletNotReachable 3 1 \<in> set (errors (validateLevel crackedLevelJson))"
    by fastforce
  from T2 p2 have "ok (validateLevel crackedLevelJson) \<longleftrightarrow> errors (validateLevel crackedLevelJson) = []"
    by blast
  with b1 have b4: "\<not> ok (validateLevel crackedLevelJson)" by auto
  from g p1 a p2 d v b1 b2 b3 b4 show ?thesis by blast
qed

text \<open>
  The level \<open>["#P.", "#G#"]\<close> parses and has two rows. Its first row pairs a wall on the
  left edge with a pellet on the right edge, and \<open>checkPair\<close> would report the mismatch;
  the validator reports the size only.
\<close>

theorem error_collection_counterexample:
  "validateLevel lowLevelJson = \<lparr> ok = False, errors = [TooSmall 3 2] \<rparr> \<and>
   checkPair CHR ''#'' 0 0 CHR ''.'' 2 0 Horizontal
     = [TunnelMismatch Horizontal 0 0 CHR ''#'' 2 0 CHR ''.''] \<and>
   TunnelMismatch Horizontal 0 0 CHR ''#'' 2 0 CHR ''.'' \<notin> set (errors (validateLevel lowLevelJson))"
proof -
  have a: "validateLevel lowLevelJson = \<lparr> ok = False, errors = [TooSmall 3 2] \<rparr>"
    by code_simp
  have b: "checkPair CHR ''#'' 0 0 CHR ''.'' 2 0 Horizontal
     = [TunnelMismatch Horizontal 0 0 CHR ''#'' 2 0 CHR ''.'']"
    by (simp add: checkPair_def)
  from a b show ?thesis by simp
qed

section \<open>The two generators of random numbers\<close>









end
